theory Spec2Isabelle
  imports Main "HOL-Library.Word"
begin

section \<open>Node OS update client: rpm-ostree wrapper and the unsupported-host stub\<close>

text \<open>
  A shallow embedding of \<^verbatim>\<open>package daemon\<close>: the \<^verbatim>\<open>RpmOstreeClient\<close> methods, the
  command wrappers they call, and the \<^verbatim>\<open>notCoreOSClient\<close> stub.

  Go strings and byte slices are byte sequences; both are modelled as \<^typ>\<open>string\<close>
  (a list of 8-bit characters), so \<^verbatim>\<open>string(out)\<close> is the identity and a nil byte slice
  is the empty string. A Go function that returns \<^verbatim>\<open>(T, error)\<close> returns a pair whose
  second component is \<open>None\<close> for a nil error; where the source only ever returns one of
  the two (a pointer or an error) the pair is a sum with \<open>Inl\<close> for the error.
  Logging through glog has no effect on any result and is left out.
\<close>

subsection \<open>Errors\<close>

text \<open>
  \<^verbatim>\<open>errors.New\<close> and \<^verbatim>\<open>fmt.Errorf\<close> build an error from a message;
  \<^verbatim>\<open>errors.Wrapf(cause, msg)\<close> keeps the cause; the operating system and the libraries
  the package calls produce errors of their own (\<open>HostError\<close>); an index out of range
  panics. \<open>ErrNotCoreosVariant\<close> is the package-level sentinel of not_cos.go.
\<close>

datatype error =
    ErrNotCoreosVariant
  | ErrorNew string
  | ErrorWrap error string
  | HostError string
  | Panic string

text \<open>The message of an error, Go's \<^verbatim>\<open>err.Error()\<close>.\<close>

fun Error :: "error \<Rightarrow> string" where
  "Error ErrNotCoreosVariant = ''operating system is not a CoreOS Variant''"
| "Error (ErrorNew m) = m"
| "Error (ErrorWrap e m) = m @ '': '' @ Error e"
| "Error (HostError m) = m"
| "Error (Panic m) = m"

subsection \<open>Data model\<close>

record RpmOstreeDeployment =
  ID :: string
  OSName :: string
  Serial :: "32 word"
  Checksum :: string
  Version :: string
  Timestamp :: "64 word"
  Booted :: bool
  Origin :: string
  CustomOrigin :: "string list"

record rpmOstreeState =
  Deployments :: "RpmOstreeDeployment list"

text \<open>
  \<^verbatim>\<open>imageInspection\<close> (the result of podman inspect). Its \<^verbatim>\<open>Name\<close> field is written
  \<open>ImageName\<close> here, since \<^verbatim>\<open>KernelArgument\<close> has a field of the same name.
  \<^verbatim>\<open>types.ImageInspectInfo\<close> belongs to a library; only its label map is read.
  A Go map is a partial function, and reading a missing key gives the empty string.
\<close>

record imageInspection =
  ImageName :: string
  Tag :: string
  Digest :: string
  RepoDigests :: "string list"
  Created :: "string option"
  DockerVersion :: string
  Labels :: "string \<rightharpoonup> string"
  Architecture :: string
  Os :: string
  Layers :: "string list"

record ImageInspectInfo =
  InfoLabels :: "string \<rightharpoonup> string"

definition label :: "(string \<rightharpoonup> string) \<Rightarrow> string \<Rightarrow> string" where
  "label m k = (case m k of None \<Rightarrow> [] | Some v \<Rightarrow> v)"

text \<open>Kernel argument operations: \<^verbatim>\<open>kargRemove int = iota\<close>, then \<^verbatim>\<open>kargAdd\<close>.\<close>

definition kargRemove :: int where
  "kargRemove = 0"

definition kargAdd :: int where
  "kargAdd = 1"

record KernelArgument =
  Operation :: int
  Name :: string

subsection \<open>Strings\<close>

text \<open>
  \<^verbatim>\<open>strings.HasPrefix(s, p)\<close>, \<^verbatim>\<open>strings.Join\<close>, and \<^verbatim>\<open>strings.Split\<close> with a
  separator of one byte (the package only splits on a newline and on a space): the
  pieces between separators, empty pieces included, so that splitting the empty string
  gives one empty piece.
\<close>

fun HasPrefix :: "string \<Rightarrow> string \<Rightarrow> bool" where
  "HasPrefix s [] = True"
| "HasPrefix [] (p # ps) = False"
| "HasPrefix (c # cs) (p # ps) = (c = p \<and> HasPrefix cs ps)"

fun Join :: "string list \<Rightarrow> string \<Rightarrow> string" where
  "Join [] sep = []"
| "Join [x] sep = x"
| "Join (x # y # ys) sep = x @ sep @ Join (y # ys) sep"

fun Split :: "string \<Rightarrow> char \<Rightarrow> string list" where
  "Split [] sep = [[]]"
| "Split (c # cs) sep =
     (if c = sep then [] # Split cs sep
      else (case Split cs sep of [] \<Rightarrow> [[c]] | t # ts \<Rightarrow> (c # t) # ts))"

text \<open>
  \<^verbatim>\<open>strings.TrimSpace\<close> removes leading and trailing white space as Unicode defines it.
  On the UTF-8 bytes of a Go string these are the six ASCII characters tab, line feed,
  vertical tab, form feed, carriage return and space, and the encodings of U+0085,
  U+00A0, U+1680, U+2000 to U+200A, U+2028, U+2029, U+202F, U+205F and U+3000.
  \<open>spaceWidth s\<close> is the number of bytes of the white space character \<open>s\<close> starts with,
  0 when it starts with none.
\<close>

definition asciiSpace :: "char \<Rightarrow> bool" where
  "asciiSpace c = (c = CHR 0x09 \<or> c = CHR 0x0A \<or> c = CHR 0x0B \<or> c = CHR 0x0C
     \<or> c = CHR 0x0D \<or> c = CHR 0x20)"

definition wideSpaces :: "string list" where
  "wideSpaces =
     [[CHR 0xC2, CHR 0x85], [CHR 0xC2, CHR 0xA0], [CHR 0xE1, CHR 0x9A, CHR 0x80],
      [CHR 0xE2, CHR 0x80, CHR 0x80], [CHR 0xE2, CHR 0x80, CHR 0x81],
      [CHR 0xE2, CHR 0x80, CHR 0x82], [CHR 0xE2, CHR 0x80, CHR 0x83],
      [CHR 0xE2, CHR 0x80, CHR 0x84], [CHR 0xE2, CHR 0x80, CHR 0x85],
      [CHR 0xE2, CHR 0x80, CHR 0x86], [CHR 0xE2, CHR 0x80, CHR 0x87],
      [CHR 0xE2, CHR 0x80, CHR 0x88], [CHR 0xE2, CHR 0x80, CHR 0x89],
      [CHR 0xE2, CHR 0x80, CHR 0x8A], [CHR 0xE2, CHR 0x80, CHR 0xA8],
      [CHR 0xE2, CHR 0x80, CHR 0xA9], [CHR 0xE2, CHR 0x80, CHR 0xAF],
      [CHR 0xE2, CHR 0x81, CHR 0x9F], [CHR 0xE3, CHR 0x80, CHR 0x80]]"

definition spaceWidth :: "string \<Rightarrow> nat" where
  "spaceWidth s =
     (case s of [] \<Rightarrow> 0
      | c # cs \<Rightarrow>
          if asciiSpace c then 1
          else (case filter (HasPrefix s) wideSpaces of [] \<Rightarrow> 0 | w # ws \<Rightarrow> length w))"

fun TrimLeft :: "nat \<Rightarrow> string \<Rightarrow> string" where
  "TrimLeft 0 s = s"
| "TrimLeft (Suc n) s =
     (if spaceWidth s = 0 then s else TrimLeft n (drop (spaceWidth s) s))"

text \<open>
  Each step of \<open>TrimLeft\<close> removes at least one byte, so \<open>length s\<close> steps reach the
  first byte that is not white space. The right end is trimmed the same way on the
  reversed string, against the reversed encodings.
\<close>

definition spaceWidthRev :: "string \<Rightarrow> nat" where
  "spaceWidthRev s =
     (case s of [] \<Rightarrow> 0
      | c # cs \<Rightarrow>
          if asciiSpace c then 1
          else (case filter (HasPrefix s) (map rev wideSpaces) of
                  [] \<Rightarrow> 0 | w # ws \<Rightarrow> length w))"

fun TrimLeftRev :: "nat \<Rightarrow> string \<Rightarrow> string" where
  "TrimLeftRev 0 s = s"
| "TrimLeftRev (Suc n) s =
     (if spaceWidthRev s = 0 then s else TrimLeftRev n (drop (spaceWidthRev s) s))"

definition TrimSpace :: "string \<Rightarrow> string" where
  "TrimSpace s =
     (let l = TrimLeft (length s) s in rev (TrimLeftRev (length l) (rev l)))"

subsection \<open>Quote-aware splitting\<close>

text \<open>
  \<^verbatim>\<open>strings.FieldsFunc(s, f)\<close> walks the string once, calls \<open>f\<close> on each character in
  order, and returns the maximal runs of characters on which \<open>f\<close> is false. The closure
  that \<^verbatim>\<open>quoteSpaceSplit\<close> passes has a variable of its own (\<^verbatim>\<open>quoted\<close>), so \<open>f\<close> takes
  and returns that state. \<open>cur\<close> is the run being read, \<open>None\<close> between runs (Go's
  negative \<^verbatim>\<open>start\<close>). The two characters the closure tests are ASCII, so reading the
  string byte by byte gives the runs that reading it rune by rune gives.
\<close>

fun FieldsFunc :: "('s \<Rightarrow> char \<Rightarrow> bool \<times> 's) \<Rightarrow> 's \<Rightarrow> string option \<Rightarrow> string \<Rightarrow> string list" where
  "FieldsFunc f st cur [] = (case cur of None \<Rightarrow> [] | Some w \<Rightarrow> [w])"
| "FieldsFunc f st cur (c # cs) =
     (case f st c of
        (True, st') \<Rightarrow>
          (case cur of None \<Rightarrow> FieldsFunc f st' None cs
           | Some w \<Rightarrow> w # FieldsFunc f st' None cs)
      | (False, st') \<Rightarrow>
          FieldsFunc f st' (Some (case cur of None \<Rightarrow> [c] | Some w \<Rightarrow> w @ [c])) cs)"

definition quoteToggle :: "bool \<Rightarrow> char \<Rightarrow> bool \<times> bool" where
  "quoteToggle quoted r =
     (let quoted' = (if r = CHR 0x22 then \<not> quoted else quoted)
      in (\<not> quoted' \<and> r = CHR 0x20, quoted'))"

definition quoteSpaceSplit :: "string \<Rightarrow> string list" where
  "quoteSpaceSplit s = FieldsFunc quoteToggle False None s"

subsection \<open>The host\<close>

text \<open>
  Everything outside the process: what running a command prints and whether it fails
  (which may depend on the commands run before), the commands run so far, and the
  parts of the package and its libraries that are not among the sources read here and
  are taken as given: \<^verbatim>\<open>imageInspect\<close>, \<^verbatim>\<open>os.Stat\<close> of the kubelet pull secret,
  \<^verbatim>\<open>ioutil.ReadFile\<close>, and \<^verbatim>\<open>json.Unmarshal\<close> at the two types it is used at.
\<close>

type_synonym cmd = "string \<times> string list"

record host =
  execResult :: "cmd list \<Rightarrow> cmd \<Rightarrow> string \<times> error option"
  executed :: "cmd list"
  imageInspect :: "string \<Rightarrow> error + ImageInspectInfo"
  kubeletAuthFileExists :: bool
  readFile :: "string \<Rightarrow> string \<times> error option"
  unmarshalState :: "string \<Rightarrow> error + rpmOstreeState"
  unmarshalInspections :: "string \<Rightarrow> error + imageInspection list"

definition numRetriesNetCommands :: nat where
  "numRetriesNetCommands = 5"

definition kubeletAuthFile :: string where
  "kubeletAuthFile = ''/var/lib/kubelet/config.json''"

definition realRpmOstreeCmd :: string where
  "realRpmOstreeCmd = ''/usr/bin/rpm-ostree''"

text \<open>\<^verbatim>\<open>exec.Command(command, args...).CombinedOutput()\<close>: the command runs and is recorded.\<close>

definition CombinedOutput :: "string \<Rightarrow> string list \<Rightarrow> host \<Rightarrow> (string \<times> error option) \<times> host" where
  "CombinedOutput command args h =
     (execResult h (executed h) (command, args),
      h\<lparr>executed := executed h @ [(command, args)]\<rparr>)"

definition runGetOut :: "string \<Rightarrow> string list \<Rightarrow> host \<Rightarrow> (string \<times> error option) \<times> host" where
  "runGetOut command args h =
     (case CombinedOutput command args h of
        ((rawOut, Some err), h') \<Rightarrow>
          (([], Some (ErrorWrap err
              (''error running '' @ command @ '' '' @ Join args '' '' @ '': '' @ rawOut))), h')
      | ((rawOut, None), h') \<Rightarrow> ((rawOut, None), h'))"

text \<open>
  \<^verbatim>\<open>runRpmOstree\<close>, the commander of the real client. The noun is not among the
  arguments it passes to \<^verbatim>\<open>runGetOut\<close>.
\<close>

definition malformed :: error where
  "malformed = ErrorNew ''rpm-ostree command is malformed, not enough arguments''"

definition runRpmOstree :: "string \<Rightarrow> string list \<Rightarrow> host \<Rightarrow> (string \<times> error option) \<times> host" where
  "runRpmOstree noun args h =
     (if length args > 2 then (([], Some malformed), h)
      else runGetOut realRpmOstreeCmd args h)"

type_synonym rpmOstreeCommander = "string \<Rightarrow> string list \<Rightarrow> host \<Rightarrow> (string \<times> error option) \<times> host"

record RpmOstreeClient =
  runRpmOstreeFunc :: rpmOstreeCommander

text \<open>The client that \<^verbatim>\<open>NewNodeUpdaterClient\<close> builds on a CoreOS variant.\<close>

definition realClient :: RpmOstreeClient where
  "realClient = \<lparr>runRpmOstreeFunc = runRpmOstree\<rparr>"

definition RunRpmOstree :: "RpmOstreeClient \<Rightarrow> string \<Rightarrow> string list \<Rightarrow> host \<Rightarrow> (string \<times> error option) \<times> host" where
  "RunRpmOstree r noun args h = runRpmOstreeFunc r noun args h"

subsection \<open>Reading the deployment state\<close>

text \<open>The loop of \<^verbatim>\<open>GetBootedDeployment\<close> over the deployments, in order.\<close>

fun firstBooted :: "RpmOstreeDeployment list \<Rightarrow> RpmOstreeDeployment option" where
  "firstBooted [] = None"
| "firstBooted (deployment # rest) =
     (if Booted deployment then Some deployment else firstBooted rest)"

definition notBooted :: error where
  "notBooted = ErrorNew ''not currently booted in a deployment''"

definition GetBootedDeployment :: "RpmOstreeClient \<Rightarrow> host \<Rightarrow> (error + RpmOstreeDeployment) \<times> host" where
  "GetBootedDeployment r h =
     (case RunRpmOstree r ''status'' [''--json''] h of
        ((output, Some err), h') \<Rightarrow> (Inl err, h')
      | ((output, None), h') \<Rightarrow>
          (case unmarshalState h' output of
             Inl err \<Rightarrow>
               (Inl (ErrorNew (''failed to parse `rpm-ostree status --json` output: '' @ Error err)), h')
           | Inr rosState \<Rightarrow>
               (case firstBooted (Deployments rosState) of
                  Some deployment \<Rightarrow> (Inr deployment, h')
                | None \<Rightarrow> (Inl notBooted, h'))))"

definition GetStatus :: "RpmOstreeClient \<Rightarrow> host \<Rightarrow> (string \<times> error option) \<times> host" where
  "GetStatus r h =
     (case RunRpmOstree r ''status'' [] h of
        ((output, Some err), h') \<Rightarrow> (([], Some err), h')
      | ((output, None), h') \<Rightarrow> ((output, None), h'))"

text \<open>
  \<^verbatim>\<open>GetBootedOSImageURL\<close> returns the image URL, the version and the error. The URL is
  what follows the scheme tag in the first custom origin.
\<close>

definition GetBootedOSImageURL :: "RpmOstreeClient \<Rightarrow> host \<Rightarrow> (string \<times> string \<times> error option) \<times> host" where
  "GetBootedOSImageURL r h =
     (case GetBootedDeployment r h of
        (Inl err, h') \<Rightarrow> (([], [], Some err), h')
      | (Inr bootedDeployment, h') \<Rightarrow>
          (let osImageURL =
             (if length (CustomOrigin bootedDeployment) > 0 then
                (if HasPrefix (CustomOrigin bootedDeployment ! 0) ''pivot://''
                 then drop (length ''pivot://'') (CustomOrigin bootedDeployment ! 0)
                 else [])
              else [])
           in ((osImageURL, Version bootedDeployment, None), h')))"

definition GetKernelArgs :: "RpmOstreeClient \<Rightarrow> host \<Rightarrow> (string list \<times> error option) \<times> host" where
  "GetKernelArgs r h =
     (case RunRpmOstree r ''kargs'' [] h of
        ((out, Some err), h') \<Rightarrow> (([], Some err), h')
      | ((out, None), h') \<Rightarrow> ((quoteSpaceSplit out, None), h'))"

subsection \<open>Resolving the commit and rebasing\<close>

text \<open>
  Modelled from the spec: \<^verbatim>\<open>pivotutils.RunExt\<close> is not among the sources. It runs the
  command and runs it again when it fails, up to the given number of attempts, and
  returns the output of the first attempt that succeeds or the error of the last one.
\<close>

fun RunExt :: "nat \<Rightarrow> string \<Rightarrow> string list \<Rightarrow> host \<Rightarrow> (string \<times> error option) \<times> host" where
  "RunExt (Suc (Suc n)) command args h =
     (case CombinedOutput command args h of
        ((out, None), h') \<Rightarrow> ((out, None), h')
      | ((out, Some err), h') \<Rightarrow> RunExt (Suc n) command args h')"
| "RunExt n command args h =
     (case CombinedOutput command args h of
        ((out, None), h') \<Rightarrow> ((out, None), h')
      | ((out, Some err), h') \<Rightarrow> (([], Some err), h'))"

definition podmanInspect :: "string \<Rightarrow> host \<Rightarrow> (error + imageInspection) \<times> host" where
  "podmanInspect imgURL h =
     (let authArgs = (if kubeletAuthFileExists h then [''--authfile'', kubeletAuthFile] else []);
          args = [''pull'', ''-q''] @ authArgs @ [imgURL]
      in case RunExt numRetriesNetCommands ''podman'' args h of
           ((out, Some err), h1) \<Rightarrow> (Inl err, h1)
         | ((out, None), h1) \<Rightarrow>
             (case runGetOut ''podman'' [''inspect'', ''--type=image'', imgURL] h1 of
                ((output, Some err), h2) \<Rightarrow> (Inl err, h2)
              | ((output, None), h2) \<Rightarrow>
                  (case unmarshalInspections h2 output of
                     Inl err \<Rightarrow> (Inl (ErrorWrap err ''unmarshaling podman inspect''), h2)
                   | Inr imagedataArray \<Rightarrow>
                       (case imagedataArray of
                          [] \<Rightarrow> (Inl (Panic ''index out of range''), h2)
                        | imgdata # rest \<Rightarrow> (Inr imgdata, h2)))))"

text \<open>
  \<^verbatim>\<open>Rebase\<close>, lines 239 to 253: the two labels, from \<^verbatim>\<open>imageInspect\<close> or, when that
  fails, from \<^verbatim>\<open>podmanInspect\<close>.
\<close>

definition inspectLabels :: "string \<Rightarrow> host \<Rightarrow> (error + string \<times> string) \<times> host" where
  "inspectLabels imgURL h =
     (case imageInspect h imgURL of
        Inl err \<Rightarrow>
          (case podmanInspect imgURL h of
             (Inl err', h') \<Rightarrow> (Inl err', h')
           | (Inr podmanImgData, h') \<Rightarrow>
               (Inr (label (Labels podmanImgData) ''com.coreos.ostree-commit'',
                     label (Labels podmanImgData) ''version''), h'))
      | Inr imageData \<Rightarrow>
          (Inr (label (InfoLabels imageData) ''com.coreos.ostree-commit'',
                label (InfoLabels imageData) ''version''), h))"

text \<open>
  \<^verbatim>\<open>Rebase\<close>, lines 261 to 291: the commit to rebase to. The label takes priority;
  without it the references of the repository are listed.
\<close>

definition resolveCsum :: "string \<Rightarrow> string \<Rightarrow> host \<Rightarrow> (error + string) \<times> host" where
  "resolveCsum repo ostreeCsum h =
     (if ostreeCsum \<noteq> [] then (Inr ostreeCsum, h)
      else
        (case runGetOut ''ostree'' [''refs'', ''--repo'', repo] h of
           ((refText, Some err), h1) \<Rightarrow> (Inl err, h1)
         | ((refText, None), h1) \<Rightarrow>
             (let refs = Split (TrimSpace refText) (CHR 0x0A) in
              if length refs = 1 then
                (case runGetOut ''ostree'' [''rev-parse'', ''--repo'', repo, refs ! 0] h1 of
                   ((ostreeCsumBytes, Some err), h2) \<Rightarrow> (Inl err, h2)
                 | ((ostreeCsumBytes, None), h2) \<Rightarrow> (Inr (TrimSpace ostreeCsumBytes), h2))
              else if length refs > 1 then
                (Inl (ErrorNew ''multiple refs found in repo''), h1)
              else
                (Inl (ErrorNew ''No refs found in repo''), h1))))"

definition customURL :: "string \<Rightarrow> string" where
  "customURL imgURL = ''pivot://'' @ imgURL"

definition rebaseArgs :: "string \<Rightarrow> string \<Rightarrow> string \<Rightarrow> string list" where
  "rebaseArgs repo ostreeCsum imgURL =
     [''rebase'', ''--experimental'', repo @ '':'' @ ostreeCsum,
      ''--custom-origin-url'', customURL imgURL,
      ''--custom-origin-description'', ''Managed by machine-config-operator'']"

text \<open>\<^verbatim>\<open>exec.Command(command, args...).Run()\<close>: the output is dropped.\<close>

definition Run :: "string \<Rightarrow> string list \<Rightarrow> host \<Rightarrow> error option \<times> host" where
  "Run command args h =
     (case CombinedOutput command args h of ((out, err), h') \<Rightarrow> (err, h'))"

text \<open>
  \<^verbatim>\<open>Rebase\<close> returns \<^verbatim>\<open>changed\<close> and \<^verbatim>\<open>err\<close>, its named results. The removal of the
  pulled image is deferred at line 255, so it runs at every return after that line and
  its own result is dropped. The rebase itself goes through \<^verbatim>\<open>runRpmOstree\<close>, not
  through the commander of the client.
\<close>

definition Rebase :: "RpmOstreeClient \<Rightarrow> string \<Rightarrow> string \<Rightarrow> host \<Rightarrow> (bool \<times> error option) \<times> host" where
  "Rebase r imgURL osImageContentDir h =
     (case GetBootedDeployment r h of
        (Inl err, h1) \<Rightarrow> ((False, Some err), h1)
      | (Inr defaultDeployment, h1) \<Rightarrow>
          (case inspectLabels imgURL h1 of
             (Inl err, h2) \<Rightarrow> ((False, Some err), h2)
           | (Inr (ostreeCsum, ostreeVersion), h2) \<Rightarrow>
               (let repo = osImageContentDir @ ''/srv/repo'';
                    (res, h4) =
                      (case resolveCsum repo ostreeCsum h2 of
                         (Inl err, h3) \<Rightarrow> ((False, Some err), h3)
                       | (Inr csum, h3) \<Rightarrow>
                           (let args = rebaseArgs repo csum imgURL in
                            case runRpmOstree (hd args) (tl args) h3 of
                              ((out, err), h4) \<Rightarrow> ((True, err), h4)))
                in (res, snd (Run ''podman'' [''rmi'', imgURL] h4)))))"

subsection \<open>Kernel arguments\<close>

definition isKernelArgInUse :: "RpmOstreeClient \<Rightarrow> string \<Rightarrow> host \<Rightarrow> (bool \<times> error option) \<times> host" where
  "isKernelArgInUse r arg h =
     (case GetKernelArgs r h of
        ((checkable, Some err), h') \<Rightarrow> ((False, Some err), h')
      | ((checkable, None), h') \<Rightarrow> ((list_ex (\<lambda>v. HasPrefix v arg) checkable, None), h'))"

text \<open>
  The two loops of \<^verbatim>\<open>SetKernelArgs\<close>: the inner one over the tokens of one requested
  argument, the outer one over the requests. \<open>kargs\<close> is the list of flags queued so
  far; an error of the query leaves both loops. An operation that is neither
  \<^verbatim>\<open>kargAdd\<close> nor \<^verbatim>\<open>kargRemove\<close> matches no case of the switch.
\<close>

fun queueTokens :: "RpmOstreeClient \<Rightarrow> int \<Rightarrow> string list \<Rightarrow> string list \<Rightarrow> host \<Rightarrow> (error + string list) \<times> host" where
  "queueTokens r operation [] kargs h = (Inr kargs, h)"
| "queueTokens r operation (sv # svs) kargs h =
     (if operation = kargAdd then
        queueTokens r operation svs (kargs @ [''--append='' @ sv]) h
      else if operation = kargRemove then
        (case isKernelArgInUse r sv h of
           ((inUse, Some err), h') \<Rightarrow> (Inl err, h')
         | ((inUse, None), h') \<Rightarrow>
             (if inUse then queueTokens r operation svs (kargs @ [''--delete='' @ sv]) h'
              else queueTokens r operation svs kargs h'))
      else queueTokens r operation svs kargs h)"

fun queueKargs :: "RpmOstreeClient \<Rightarrow> KernelArgument list \<Rightarrow> string list \<Rightarrow> host \<Rightarrow> (error + string list) \<times> host" where
  "queueKargs r [] kargs h = (Inr kargs, h)"
| "queueKargs r (v # vs) kargs h =
     (case queueTokens r (Operation v) (quoteSpaceSplit (Name v)) kargs h of
        (Inl err, h') \<Rightarrow> (Inl err, h')
      | (Inr kargs', h') \<Rightarrow> queueKargs r vs kargs' h')"

definition SetKernelArgs :: "RpmOstreeClient \<Rightarrow> KernelArgument list \<Rightarrow> host \<Rightarrow> (string \<times> error option) \<times> host" where
  "SetKernelArgs r args h =
     (case queueKargs r args [] h of
        (Inl err, h') \<Rightarrow> (([], Some err), h')
      | (Inr kargs, h') \<Rightarrow>
          (if length kargs = 0 then (([], None), h')
           else RunRpmOstree r ''kargs'' kargs h'))"

definition RemovePendingDeployment :: "RpmOstreeClient \<Rightarrow> host \<Rightarrow> error option \<times> host" where
  "RemovePendingDeployment r h =
     (case RunRpmOstree r ''cleanup'' [''-p''] h of ((out, err), h') \<Rightarrow> (err, h'))"

subsection \<open>The stub for hosts that are not a CoreOS variant\<close>

text \<open>
  The methods of \<^verbatim>\<open>notCoreOSClient\<close>, which has no field. Each takes the host and
  returns it, as the methods of the real client do. \<open>zeroDeployment\<close> is
  \<^verbatim>\<open>RpmOstreeDeployment{}\<close>. \<^verbatim>\<open>CmdLineFile\<close> is declared outside the sources read here
  and is a parameter.
\<close>

definition zeroDeployment :: RpmOstreeDeployment where
  "zeroDeployment =
     \<lparr>ID = [], OSName = [], Serial = 0, Checksum = [], Version = [], Timestamp = 0,
      Booted = False, Origin = [], CustomOrigin = []\<rparr>"

definition noCos_GetBootedDeployment :: "host \<Rightarrow> (error + RpmOstreeDeployment) \<times> host" where
  "noCos_GetBootedDeployment h = (Inr zeroDeployment, h)"

definition noCos_Rebase :: "string \<Rightarrow> string \<Rightarrow> host \<Rightarrow> (bool \<times> error option) \<times> host" where
  "noCos_Rebase a b h = ((False, Some ErrNotCoreosVariant), h)"

definition noCos_GetStatus :: "host \<Rightarrow> (string \<times> error option) \<times> host" where
  "noCos_GetStatus h = (([], Some ErrNotCoreosVariant), h)"

definition noCos_GetBootedOSImageURL :: "host \<Rightarrow> (string \<times> string \<times> error option) \<times> host" where
  "noCos_GetBootedOSImageURL h = (([], [], Some ErrNotCoreosVariant), h)"

definition noCos_GetKernelArgs :: "string \<Rightarrow> host \<Rightarrow> (string list \<times> error option) \<times> host" where
  "noCos_GetKernelArgs CmdLineFile h =
     (case readFile h CmdLineFile of
        (content, Some err) \<Rightarrow> (([], Some err), h)
      | (content, None) \<Rightarrow> ((Split content (CHR 0x20), None), h))"

definition noCos_SetKernelArgs :: "KernelArgument list \<Rightarrow> host \<Rightarrow> (string \<times> error option) \<times> host" where
  "noCos_SetKernelArgs args h = ((''unsupported'', Some ErrNotCoreosVariant), h)"

definition noCos_RemovePendingDeployment :: "host \<Rightarrow> error option \<times> host" where
  "noCos_RemovePendingDeployment h = (Some ErrNotCoreosVariant, h)"

definition noCos_RunRpmOstree :: "string \<Rightarrow> string list \<Rightarrow> host \<Rightarrow> (string \<times> error option) \<times> host" where
  "noCos_RunRpmOstree noun args h = (([], Some ErrNotCoreosVariant), h)"


subsection \<open>Quote-aware splitting, as the specification words it\<close>

text \<open>
  A position is inside a double-quoted span when an odd number of double quotes stands
  before it; a space is a token boundary exactly when it is not inside such a span; the
  tokens are the non-empty pieces between the boundaries.
\<close>

definition insideQuotes :: "string \<Rightarrow> nat \<Rightarrow> bool" where
  "insideQuotes s i = odd (count_list (take i s) (CHR 0x22))"

definition tokenBoundary :: "string \<Rightarrow> nat \<Rightarrow> bool" where
  "tokenBoundary s i = (s ! i = CHR 0x20 \<and> \<not> insideQuotes s i)"

fun pieces :: "(char \<times> bool) list \<Rightarrow> string list" where
  "pieces [] = [[]]"
| "pieces ((c, boundary) # rest) =
     (if boundary then [] # pieces rest
      else (case pieces rest of [] \<Rightarrow> [[c]] | t # ts \<Rightarrow> (c # t) # ts))"

definition tokensOf :: "string \<Rightarrow> string list" where
  "tokensOf s =
     filter (\<lambda>t. t \<noteq> []) (pieces (map (\<lambda>i. (s ! i, tokenBoundary s i)) [0..<length s]))"

text \<open>
  The marking of the boundaries read from left to right, with the quoting state in
  hand, and the run that \<open>FieldsFunc\<close> is reading, as a string.
\<close>

fun mark :: "bool \<Rightarrow> string \<Rightarrow> (char \<times> bool) list" where
  "mark q [] = []"
| "mark q (c # cs) =
     (let q' = (if c = CHR 0x22 then \<not> q else q)
      in (c, c = CHR 0x20 \<and> \<not> q') # mark q' cs)"

definition pending :: "string option \<Rightarrow> string" where
  "pending cur = (case cur of None \<Rightarrow> [] | Some w \<Rightarrow> w)"


subsection \<open>Example hosts\<close>

text \<open>
  Concrete hosts on which the theorems below are exercised: a host answers each command
  by a fixed table, decodes every status output to a given deployment list, and either
  serves the labels of the image or fails the inspection.
\<close>

definition demoDeployment :: "string \<Rightarrow> bool \<Rightarrow> string list \<Rightarrow> RpmOstreeDeployment" where
  "demoDeployment ident booted origin =
     \<lparr>ID = ident, OSName = ''rhcos'', Serial = 0, Checksum = ''c0ffee'', Version = ''47.1'',
      Timestamp = 0, Booted = booted, Origin = [], CustomOrigin = origin\<rparr>"

definition demoHost :: "(cmd \<Rightarrow> string \<times> error option) \<Rightarrow> RpmOstreeDeployment list \<Rightarrow> (string \<rightharpoonup> string) option \<Rightarrow> host" where
  "demoHost answers deployments labels =
     \<lparr>execResult = (\<lambda>history c. answers c),
      executed = [],
      imageInspect = (\<lambda>imgURL. case labels of
         None \<Rightarrow> Inl (HostError ''manifest unknown'')
       | Some m \<Rightarrow> Inr \<lparr>InfoLabels = m\<rparr>),
      kubeletAuthFileExists = False,
      readFile = (\<lambda>name. ([], Some (HostError ''no such file or directory''))),
      unmarshalState = (\<lambda>output. Inr \<lparr>Deployments = deployments\<rparr>),
      unmarshalInspections = (\<lambda>output. Inl (HostError ''unexpected end of JSON input''))\<rparr>"

definition statusAnswers :: "cmd \<Rightarrow> string \<times> error option" where
  "statusAnswers c = (''{}'', None)"

definition kargsAnswers :: "string \<Rightarrow> cmd \<Rightarrow> string \<times> error option" where
  "kargsAnswers out c = (if c = (realRpmOstreeCmd, []) then (out, None) else ([], None))"

definition quotedKargs :: string where
  "quotedKargs = ''boo=bar='' @ [CHR 0x22] @ ''YIPPIE KA YAY'' @ [CHR 0x22] @ '' baz foo''"


definition unbalanced :: string where
  "unbalanced = ''k='' @ [CHR 0x22] @ ''v''"


subsection \<open>Observing the commands of a client\<close>

text \<open>
  The commander of a client is a field so that it can be replaced
  (\<^verbatim>\<open>rpmOstreeCommander\<close> is "a function for wrapping and mocking rpm-ostree"). The
  recording commander runs nothing: it notes the noun and the arguments it is called
  with in the list of commands of the host, and answers as \<open>answer\<close> says, which may
  depend on the calls before.
\<close>

definition recordingCommander :: "(cmd list \<Rightarrow> string \<Rightarrow> string list \<Rightarrow> string \<times> error option) \<Rightarrow> rpmOstreeCommander" where
  "recordingCommander answer noun args h =
     (answer (executed h) noun args, h\<lparr>executed := executed h @ [(noun, args)]\<rparr>)"

definition recordingClient :: "(cmd list \<Rightarrow> string \<Rightarrow> string list \<Rightarrow> string \<times> error option) \<Rightarrow> RpmOstreeClient" where
  "recordingClient answer = \<lparr>runRpmOstreeFunc = recordingCommander answer\<rparr>"

text \<open>
  The flags the specification asks for, given the current kernel arguments: an append
  flag for every Add token, a delete flag for every Remove token that is a prefix of a
  current argument; and the number of Remove tokens of a request list.
\<close>

definition tokenFlags :: "string list \<Rightarrow> int \<Rightarrow> string \<Rightarrow> string list" where
  "tokenFlags current operation sv =
     (if operation = kargAdd then [''--append='' @ sv]
      else if operation = kargRemove \<and> list_ex (\<lambda>v. HasPrefix v sv) current
      then [''--delete='' @ sv]
      else [])"

definition flagsFor :: "string list \<Rightarrow> KernelArgument list \<Rightarrow> string list" where
  "flagsFor current args =
     concat (map (\<lambda>v. concat (map (tokenFlags current (Operation v)) (quoteSpaceSplit (Name v)))) args)"

definition removals :: "KernelArgument list \<Rightarrow> nat" where
  "removals args =
     sum_list (map (\<lambda>v. if Operation v = kargRemove then length (quoteSpaceSplit (Name v)) else 0) args)"

definition demoAnswer :: "cmd list \<Rightarrow> string \<Rightarrow> string list \<Rightarrow> string \<times> error option" where
  "demoAnswer history noun args = (if args = [] then (''ro quiet'', None) else (''staged'', None))"


text \<open>
  Hosts with a repository next to the image: one whose reference listing prints only
  white space and which answers the resolution of the empty reference name, one that
  lists two references; and the labels of an image that carries the commit.
\<close>

definition demoRepo :: string where
  "demoRepo = ''/run/mco/srv/repo''"

definition emptyRepoAnswers :: "cmd \<Rightarrow> string \<times> error option" where
  "emptyRepoAnswers c =
     (if c = (''ostree'', [''refs'', ''--repo'', demoRepo]) then ([CHR 0x20, CHR 0x0A], None)
      else if c = (''ostree'', [''rev-parse'', ''--repo'', demoRepo, []])
      then (''deadbeef'' @ [CHR 0x0A], None)
      else (''{}'', None))"

definition twoRefsAnswers :: "cmd \<Rightarrow> string \<times> error option" where
  "twoRefsAnswers c =
     (if c = (''ostree'', [''refs'', ''--repo'', demoRepo])
      then (''stable'' @ [CHR 0x0A] @ ''testing'' @ [CHR 0x0A], None)
      else (''{}'', None))"

definition commitLabel :: "string \<rightharpoonup> string" where
  "commitLabel = [''com.coreos.ostree-commit'' \<mapsto> ''c0ffee'']"


section \<open>Properties\<close>

subsection \<open>The booted deployment\<close>

lemma firstBooted_Some:
  "list_ex Booted ds \<Longrightarrow>
     \<exists>pre d post. ds = pre @ d # post \<and> Booted d \<and> \<not> list_ex Booted pre \<and> firstBooted ds = Some d"
proof (induction ds)
  case Nil
  then show ?case by simp
next
  case (Cons a ds)
  show ?case
  proof (cases "Booted a")
    case True
    then have "a # ds = [] @ a # ds \<and> Booted a \<and> \<not> list_ex Booted [] \<and> firstBooted (a # ds) = Some a"
      by simp
    then show ?thesis by blast
  next
    case False
    with Cons.prems have "list_ex Booted ds" by simp
    from Cons.IH[OF this] obtain pre d post where
      *: "ds = pre @ d # post" "Booted d" "\<not> list_ex Booted pre" "firstBooted ds = Some d"
      by blast
    with False have "a # ds = (a # pre) @ d # post \<and> Booted d \<and> \<not> list_ex Booted (a # pre)
        \<and> firstBooted (a # ds) = Some d"
      by simp
    then show ?thesis by blast
  qed
qed

lemma firstBooted_None: "\<not> list_ex Booted ds \<Longrightarrow> firstBooted ds = None"
  by (induction ds) auto

text \<open>
  C2. When the status query succeeds and its output decodes to a deployment list,
  \<^verbatim>\<open>GetBootedDeployment\<close> returns the first deployment of the list whose booted flag
  is set, if there is one; if there is none it returns no deployment but the error
  whose message is "not currently booted in a deployment".
\<close>

theorem GetBootedDeployment_first_booted:
  assumes "RunRpmOstree r ''status'' [''--json''] h = ((output, None), h')"
      and "unmarshalState h' output = Inr rosState"
  shows "(list_ex Booted (Deployments rosState) \<longrightarrow>
            (\<exists>pre d post. Deployments rosState = pre @ d # post \<and> Booted d
               \<and> \<not> list_ex Booted pre \<and> GetBootedDeployment r h = (Inr d, h')))
       \<and> (\<not> list_ex Booted (Deployments rosState) \<longrightarrow>
            GetBootedDeployment r h = (Inl notBooted, h')
            \<and> Error notBooted = ''not currently booted in a deployment'')"
proof (intro conjI impI)
  assume "list_ex Booted (Deployments rosState)"
  from firstBooted_Some[OF this] obtain pre d post where
    *: "Deployments rosState = pre @ d # post" "Booted d" "\<not> list_ex Booted pre"
       "firstBooted (Deployments rosState) = Some d"
    by blast
  from assms *(4) have "GetBootedDeployment r h = (Inr d, h')"
    by (simp add: GetBootedDeployment_def)
  with * show "\<exists>pre d post. Deployments rosState = pre @ d # post \<and> Booted d
               \<and> \<not> list_ex Booted pre \<and> GetBootedDeployment r h = (Inr d, h')"
    by blast
next
  assume "\<not> list_ex Booted (Deployments rosState)"
  from firstBooted_None[OF this] assms
  show "GetBootedDeployment r h = (Inl notBooted, h')"
    by (simp add: GetBootedDeployment_def)
next
  show "Error notBooted = ''not currently booted in a deployment''"
    by (simp add: notBooted_def)
qed

lemma demo_status:
  "RunRpmOstree realClient ''status'' [''--json''] (demoHost statusAnswers ds l)
     = ((''{}'', None), (demoHost statusAnswers ds l)\<lparr>executed := [(realRpmOstreeCmd, [''--json''])]\<rparr>)"
  by (simp add: RunRpmOstree_def realClient_def runRpmOstree_def runGetOut_def CombinedOutput_def
      demoHost_def statusAnswers_def)

theorem GetBootedDeployment_first_booted_witness:
  "GetBootedDeployment realClient
      (demoHost statusAnswers
         [demoDeployment ''a'' False [], demoDeployment ''b'' True [], demoDeployment ''c'' True []] None)
     = (Inr (demoDeployment ''b'' True []),
        (demoHost statusAnswers
         [demoDeployment ''a'' False [], demoDeployment ''b'' True [], demoDeployment ''c'' True []] None)
          \<lparr>executed := [(realRpmOstreeCmd, [''--json''])]\<rparr>)
   \<and> GetBootedDeployment realClient
      (demoHost statusAnswers [demoDeployment ''a'' False []] None)
     = (Inl (ErrorNew ''not currently booted in a deployment''),
        (demoHost statusAnswers [demoDeployment ''a'' False []] None)
          \<lparr>executed := [(realRpmOstreeCmd, [''--json''])]\<rparr>)"
proof -
  let ?ds = "[demoDeployment ''a'' False [], demoDeployment ''b'' True [], demoDeployment ''c'' True []]"
  let ?h = "demoHost statusAnswers ?ds None"
  let ?h' = "?h\<lparr>executed := [(realRpmOstreeCmd, [''--json''])]\<rparr>"
  have u: "unmarshalState ?h' ''{}'' = Inr \<lparr>Deployments = ?ds\<rparr>"
    by (simp add: demoHost_def)
  from GetBootedDeployment_first_booted[OF demo_status u]
  obtain pre d post where *: "?ds = pre @ d # post" "Booted d" "\<not> list_ex Booted pre"
     "GetBootedDeployment realClient ?h = (Inr d, ?h')"
    by (auto simp: demoDeployment_def)
  have "d = demoDeployment ''b'' True []"
    using *(1,2,3) by (auto simp: demoDeployment_def Cons_eq_append_conv)
  with *(4) have A: "GetBootedDeployment realClient ?h = (Inr (demoDeployment ''b'' True []), ?h')"
    by simp
  let ?g = "demoHost statusAnswers [demoDeployment ''a'' False []] None"
  let ?g' = "?g\<lparr>executed := [(realRpmOstreeCmd, [''--json''])]\<rparr>"
  have v: "unmarshalState ?g' ''{}'' = Inr \<lparr>Deployments = [demoDeployment ''a'' False []]\<rparr>"
    by (simp add: demoHost_def)
  from GetBootedDeployment_first_booted[OF demo_status v]
  have B: "GetBootedDeployment realClient ?g = (Inl (ErrorNew ''not currently booted in a deployment''), ?g')"
    by (simp add: demoDeployment_def notBooted_def)
  from A B show ?thesis by simp
qed


subsection \<open>The custom origin\<close>

lemma HasPrefix_append: "HasPrefix (p @ s) p"
  by (induction p) auto

text \<open>
  C6. The custom origin that \<^verbatim>\<open>Rebase\<close> passes to the rebase command after
  \<^verbatim>\<open>--custom-origin-url\<close> is the scheme tag "pivot://" followed by the image reference
  \<open>R\<close>. \<^verbatim>\<open>GetBootedOSImageURL\<close>, on a booted deployment whose first custom origin is
  that string, returns \<open>R\<close> unchanged; on a booted deployment none of whose custom
  origins starts with the scheme tag (an empty list included) it returns the empty URL
  and no error.
\<close>

theorem custom_origin_round_trip:
  "customURL R = ''pivot://'' @ R
   \<and> rebaseArgs repo csum R ! 3 = ''--custom-origin-url''
   \<and> rebaseArgs repo csum R ! 4 = customURL R
   \<and> (GetBootedDeployment r h = (Inr d, h') \<longrightarrow>
        (\<forall>rest. CustomOrigin d = customURL R # rest \<longrightarrow>
           GetBootedOSImageURL r h = ((R, Version d, None), h'))
        \<and> ((\<forall>origin \<in> set (CustomOrigin d). \<not> HasPrefix origin ''pivot://'') \<longrightarrow>
           GetBootedOSImageURL r h = (([], Version d, None), h')))"
proof -
  have pre: "HasPrefix (''pivot://'' @ R) ''pivot://''"
    by (rule HasPrefix_append)
  have A: "GetBootedOSImageURL r h = ((R, Version d, None), h')"
    if "GetBootedDeployment r h = (Inr d, h')" "CustomOrigin d = customURL R # rest" for rest
    using that pre by (simp add: GetBootedOSImageURL_def customURL_def)
  have B: "GetBootedOSImageURL r h = (([], Version d, None), h')"
    if "GetBootedDeployment r h = (Inr d, h')"
       "\<forall>origin \<in> set (CustomOrigin d). \<not> HasPrefix origin ''pivot://''"
  proof (cases "CustomOrigin d")
    case Nil
    with that show ?thesis by (simp add: GetBootedOSImageURL_def)
  next
    case (Cons a list)
    with that have "\<not> HasPrefix a ''pivot://''" by simp
    with that Cons show ?thesis by (simp add: GetBootedOSImageURL_def)
  qed
  show ?thesis
    using A B by (simp add: customURL_def rebaseArgs_def)
qed

lemma demo_booted:
  "GetBootedDeployment realClient (demoHost statusAnswers [demoDeployment ''a'' True origin] None)
     = (Inr (demoDeployment ''a'' True origin),
        (demoHost statusAnswers [demoDeployment ''a'' True origin] None)
           \<lparr>executed := [(realRpmOstreeCmd, [''--json''])]\<rparr>)"
  by (simp add: GetBootedDeployment_def RunRpmOstree_def realClient_def runRpmOstree_def
      runGetOut_def CombinedOutput_def demoHost_def statusAnswers_def demoDeployment_def)

theorem custom_origin_round_trip_witness:
  "fst (GetBootedOSImageURL realClient
      (demoHost statusAnswers
         [demoDeployment ''a'' True [''pivot://quay.io/os@sha256:0a'', ''Managed by machine-config-operator'']]
         None))
     = (''quay.io/os@sha256:0a'', ''47.1'', None)
   \<and> fst (GetBootedOSImageURL realClient
      (demoHost statusAnswers [demoDeployment ''a'' True [''ostree://fedora:stable'', ''by hand'']] None))
     = ([], ''47.1'', None)
   \<and> fst (GetBootedOSImageURL realClient (demoHost statusAnswers [demoDeployment ''a'' True []] None))
     = ([], ''47.1'', None)"
proof -
  have A: "fst (GetBootedOSImageURL realClient
      (demoHost statusAnswers
         [demoDeployment ''a'' True [''pivot://quay.io/os@sha256:0a'', ''Managed by machine-config-operator'']]
         None))
     = (''quay.io/os@sha256:0a'', ''47.1'', None)"
    using custom_origin_round_trip[of "''quay.io/os@sha256:0a''" "[]" "[]" realClient
        "demoHost statusAnswers
         [demoDeployment ''a'' True [''pivot://quay.io/os@sha256:0a'', ''Managed by machine-config-operator'']] None"
        "demoDeployment ''a'' True [''pivot://quay.io/os@sha256:0a'', ''Managed by machine-config-operator'']"]
      demo_booted[of "[''pivot://quay.io/os@sha256:0a'', ''Managed by machine-config-operator'']"]
    by (simp add: demoDeployment_def customURL_def)
  have B: "fst (GetBootedOSImageURL realClient
      (demoHost statusAnswers [demoDeployment ''a'' True [''ostree://fedora:stable'', ''by hand'']] None))
     = ([], ''47.1'', None)"
    using custom_origin_round_trip[of "[]" "[]" "[]" realClient
        "demoHost statusAnswers [demoDeployment ''a'' True [''ostree://fedora:stable'', ''by hand'']] None"
        "demoDeployment ''a'' True [''ostree://fedora:stable'', ''by hand'']"]
      demo_booted[of "[''ostree://fedora:stable'', ''by hand'']"]
    by (simp add: demoDeployment_def)
  have C: "fst (GetBootedOSImageURL realClient (demoHost statusAnswers [demoDeployment ''a'' True []] None))
     = ([], ''47.1'', None)"
    using custom_origin_round_trip[of "[]" "[]" "[]" realClient
        "demoHost statusAnswers [demoDeployment ''a'' True []] None"
        "demoDeployment ''a'' True []"]
      demo_booted[of "[]"]
    by (simp add: demoDeployment_def)
  from A B C show ?thesis by simp
qed


subsection \<open>The unsupported-host stub\<close>

text \<open>
  C8. \<^verbatim>\<open>Rebase\<close>, \<^verbatim>\<open>SetKernelArgs\<close>, \<^verbatim>\<open>RemovePendingDeployment\<close> and
  \<^verbatim>\<open>RunRpmOstree\<close> of the stub all return the one sentinel \<open>ErrNotCoreosVariant\<close> and
  leave the host as it was, so none of them runs a command; \<^verbatim>\<open>GetBootedDeployment\<close>
  of the stub returns the deployment whose fields are all zero, with no error.
\<close>

theorem stub_uniform_sentinel:
  "snd (fst (noCos_Rebase a b h)) = Some ErrNotCoreosVariant
   \<and> snd (fst (noCos_SetKernelArgs args h)) = Some ErrNotCoreosVariant
   \<and> fst (noCos_RemovePendingDeployment h) = Some ErrNotCoreosVariant
   \<and> snd (fst (noCos_RunRpmOstree noun as h)) = Some ErrNotCoreosVariant
   \<and> snd (noCos_Rebase a b h) = h
   \<and> snd (noCos_SetKernelArgs args h) = h
   \<and> snd (noCos_RemovePendingDeployment h) = h
   \<and> snd (noCos_RunRpmOstree noun as h) = h
   \<and> noCos_GetBootedDeployment h = (Inr zeroDeployment, h)
   \<and> zeroDeployment = \<lparr>ID = [], OSName = [], Serial = 0, Checksum = [], Version = [],
        Timestamp = 0, Booted = False, Origin = [], CustomOrigin = []\<rparr>"
  by (simp add: noCos_Rebase_def noCos_SetKernelArgs_def noCos_RemovePendingDeployment_def
      noCos_RunRpmOstree_def noCos_GetBootedDeployment_def zeroDeployment_def)


subsection \<open>Quote-aware splitting of the kernel arguments\<close>

lemma mark_positions:
  "map (\<lambda>i. ((p @ s) ! i, tokenBoundary (p @ s) i)) [length p..<length p + length s]
     = mark (odd (count_list p (CHR 0x22))) s"
proof (induction s arbitrary: p)
  case Nil
  then show ?case by simp
next
  case (Cons c cs)
  have step: "[length p..<length p + length (c # cs)]
      = length p # [length (p @ [c])..<length (p @ [c]) + length cs]"
    by (subst upt_rec) simp
  have tail: "map (\<lambda>i. ((p @ c # cs) ! i, tokenBoundary (p @ c # cs) i))
        [length (p @ [c])..<length (p @ [c]) + length cs]
      = mark (odd (count_list (p @ [c]) (CHR 0x22))) cs"
    using Cons.IH[of "p @ [c]"] by simp
  have head: "tokenBoundary (p @ c # cs) (length p)
      = (c = CHR 0x20 \<and> \<not> odd (count_list p (CHR 0x22)))"
    by (simp add: tokenBoundary_def insideQuotes_def)
  show ?case
    unfolding step list.map tail head
    by (auto simp: Let_def)
qed

lemma tokensOf_mark: "tokensOf s = filter (\<lambda>t. t \<noteq> []) (pieces (mark False s))"
  using mark_positions[of "[]" s] by (simp add: tokensOf_def)

lemma pieces_nonempty: "pieces ms \<noteq> []"
  by (induction ms rule: pieces.induct) (auto split: list.splits)

lemma FieldsFunc_pieces:
  "cur \<noteq> Some [] \<Longrightarrow>
   FieldsFunc quoteToggle q cur s
     = filter (\<lambda>t. t \<noteq> [])
         ((pending cur @ hd (pieces (mark q s))) # tl (pieces (mark q s)))"
proof (induction s arbitrary: q cur)
  case Nil
  then show ?case by (cases cur) (auto simp: pending_def)
next
  case (Cons c cs)
  let ?q' = "if c = CHR 0x22 then \<not> q else q"
  obtain t ts where p: "pieces (mark ?q' cs) = t # ts"
    using pieces_nonempty by (cases "pieces (mark ?q' cs)") auto
  show ?case
  proof (cases "c = CHR 0x20 \<and> \<not> ?q'")
    case True
    then have f: "quoteToggle q c = (True, ?q')"
      by (auto simp: quoteToggle_def Let_def split: if_splits)
    have ih: "FieldsFunc quoteToggle ?q' None cs = filter (\<lambda>t. t \<noteq> []) (t # ts)"
      using Cons.IH[of None ?q'] p by (simp add: pending_def)
    from True f ih p Cons.prems show ?thesis
      by (cases cur) (auto simp: pending_def Let_def)
  next
    case False
    then have f: "quoteToggle q c = (False, ?q')"
      by (auto simp: quoteToggle_def Let_def)
    let ?cur' = "Some (case cur of None \<Rightarrow> [c] | Some w \<Rightarrow> w @ [c])"
    have ne: "?cur' \<noteq> Some []" by (cases cur) auto
    have ih: "FieldsFunc quoteToggle ?q' ?cur' cs
        = filter (\<lambda>t. t \<noteq> []) ((pending ?cur' @ t) # ts)"
      using Cons.IH[OF ne, of ?q'] p by simp
    have pc: "pending ?cur' = pending cur @ [c]"
      by (cases cur) (auto simp: pending_def)
    from False f ih p pc show ?thesis
      by (auto simp: Let_def)
  qed
qed

lemma quoteSpaceSplit_tokensOf: "quoteSpaceSplit s = tokensOf s"
proof -
  obtain t ts where p: "pieces (mark False s) = t # ts"
    using pieces_nonempty by (cases "pieces (mark False s)") auto
  show ?thesis
    using FieldsFunc_pieces[of None False s] p
    by (simp add: quoteSpaceSplit_def tokensOf_mark pending_def)
qed

text \<open>
  C7. When the kernel argument query succeeds, \<^verbatim>\<open>GetKernelArgs\<close> returns the tokens of
  its output in which a space is a token boundary exactly when it is not inside a
  double-quoted span, each double quote toggling the quoting: the non-empty pieces
  between those boundaries, so that quoted spaces stay inside their token.
\<close>

theorem GetKernelArgs_quote_aware:
  assumes "RunRpmOstree r ''kargs'' [] h = ((out, None), h')"
  shows "GetKernelArgs r h = ((tokensOf out, None), h')"
  using assms by (simp add: GetKernelArgs_def quoteSpaceSplit_tokensOf)

lemma quotedKargs_split:
  "quoteSpaceSplit quotedKargs
     = [''boo=bar='' @ [CHR 0x22] @ ''YIPPIE KA YAY'' @ [CHR 0x22], ''baz'', ''foo'']"
  by (simp add: quoteSpaceSplit_def quotedKargs_def quoteToggle_def)

lemma demo_kargs:
  "RunRpmOstree realClient ''kargs'' [] (demoHost (kargsAnswers out) ds l)
     = ((out, None), (demoHost (kargsAnswers out) ds l)\<lparr>executed := [(realRpmOstreeCmd, [])]\<rparr>)"
  by (simp add: RunRpmOstree_def realClient_def runRpmOstree_def runGetOut_def CombinedOutput_def
      demoHost_def kargsAnswers_def)

theorem GetKernelArgs_quote_aware_witness:
  "fst (GetKernelArgs realClient (demoHost (kargsAnswers quotedKargs) [] None))
     = (tokensOf quotedKargs, None)
   \<and> tokensOf quotedKargs
     = [''boo=bar='' @ [CHR 0x22] @ ''YIPPIE KA YAY'' @ [CHR 0x22], ''baz'', ''foo'']"
  using GetKernelArgs_quote_aware[OF demo_kargs[of quotedKargs "[]" None]]
    quotedKargs_split quoteSpaceSplit_tokensOf[of quotedKargs]
  by simp


subsection \<open>Composite kernel arguments\<close>

lemma mark_fst: "map fst (mark q s) = s"
  by (induction s arbitrary: q) (auto simp: Let_def)

lemma pieces_concat: "concat (pieces ms) = map fst (filter (\<lambda>m. \<not> snd m) ms)"
  by (induction ms rule: pieces.induct) (auto split: list.splits)

lemma concat_filter_nonempty: "concat (filter (\<lambda>t. t \<noteq> []) ts) = concat ts"
  by (induction ts) auto

lemma quoteSpaceSplit_concat:
  "concat (quoteSpaceSplit s) = map fst (filter (\<lambda>m. \<not> snd m) (mark False s))"
  by (simp add: quoteSpaceSplit_tokensOf tokensOf_mark concat_filter_nonempty pieces_concat)

lemma filter_full: "length (filter P xs) = length xs \<Longrightarrow> \<forall>x \<in> set xs. P x"
  by (metis filter_id_conv length_filter_less less_irrefl_nat)

lemma single_token_no_boundary:
  assumes "quoteSpaceSplit a = [a]"
  shows "\<forall>m \<in> set (mark False a). \<not> snd m"
proof -
  let ?kept = "filter (\<lambda>m. \<not> snd m) (mark False a)"
  have c: "concat (quoteSpaceSplit a) = a"
    by (simp add: assms)
  have m: "map fst ?kept = a"
    unfolding quoteSpaceSplit_concat[symmetric] by (rule c)
  have "length ?kept = length (map fst ?kept)"
    by simp
  also have "\<dots> = length a"
    by (simp only: m)
  also have "length a = length (map fst (mark False a))"
    by (simp only: mark_fst)
  also have "\<dots> = length (mark False a)"
    by simp
  finally show ?thesis
    by (rule filter_full)
qed

lemma FieldsFunc_run:
  "\<forall>m \<in> set (mark q a). \<not> snd m \<Longrightarrow>
   FieldsFunc quoteToggle q cur (a @ s)
     = FieldsFunc quoteToggle (q \<noteq> odd (count_list a (CHR 0x22)))
         (if a = [] then cur else Some (pending cur @ a)) s"
proof (induction a arbitrary: q cur)
  case Nil
  then show ?case by simp
next
  case (Cons c cs)
  let ?q' = "if c = CHR 0x22 then \<not> q else q"
  from Cons.prems have nb: "\<not> (c = CHR 0x20 \<and> \<not> ?q')" and rest: "\<forall>m \<in> set (mark ?q' cs). \<not> snd m"
    by (auto simp: Let_def)
  from nb have f: "quoteToggle q c = (False, ?q')"
    by (auto simp: quoteToggle_def Let_def)
  let ?cur' = "Some (case cur of None \<Rightarrow> [c] | Some w \<Rightarrow> w @ [c])"
  have pc: "pending ?cur' = pending cur @ [c]"
    by (cases cur) (auto simp: pending_def)
  have "FieldsFunc quoteToggle q cur ((c # cs) @ s) = FieldsFunc quoteToggle ?q' ?cur' (cs @ s)"
    using f by simp
  also have "\<dots> = FieldsFunc quoteToggle (?q' \<noteq> odd (count_list cs (CHR 0x22)))
         (if cs = [] then ?cur' else Some (pending ?cur' @ cs)) s"
    by (rule Cons.IH[OF rest])
  also have "(if cs = [] then ?cur' else Some (pending ?cur' @ cs)) = Some (pending cur @ c # cs)"
    using pc by (cases cur) (auto simp: pending_def)
  also have "(?q' \<noteq> odd (count_list cs (CHR 0x22))) = (q \<noteq> odd (count_list (c # cs) (CHR 0x22)))"
    by auto
  finally show ?case by simp
qed

lemma composite_split:
  assumes "quoteSpaceSplit a = [a]" and "even (count_list a (CHR 0x22))"
  shows "quoteSpaceSplit (a @ '' '' @ b) = a # quoteSpaceSplit b"
proof -
  from assms(1) have ne: "a \<noteq> []"
    by (auto simp: quoteSpaceSplit_def)
  have "quoteSpaceSplit (a @ '' '' @ b) = FieldsFunc quoteToggle False (Some a) ('' '' @ b)"
    unfolding quoteSpaceSplit_def
    using FieldsFunc_run[OF single_token_no_boundary[OF assms(1)], of None "'' '' @ b"] assms(2) ne
    by (simp add: pending_def)
  also have "\<dots> = a # FieldsFunc quoteToggle False None b"
    by (simp add: quoteToggle_def)
  finally show ?thesis by (simp add: quoteSpaceSplit_def)
qed

lemma queueTokens_append:
  "queueTokens r operation (xs @ ys) kargs h
     = (case queueTokens r operation xs kargs h of
          (Inl err, h') \<Rightarrow> (Inl err, h')
        | (Inr kargs', h') \<Rightarrow> queueTokens r operation ys kargs' h')"
proof (induction xs arbitrary: kargs h)
  case Nil
  then show ?case by simp
next
  case (Cons sv svs)
  show ?case
  proof (cases "operation = kargAdd")
    case True
    then show ?thesis using Cons.IH by simp
  next
    case notAdd: False
    show ?thesis
    proof (cases "operation = kargRemove")
      case True
      obtain inUse err h' where q: "isKernelArgInUse r sv h = ((inUse, err), h')"
        by (metis surj_pair)
      show ?thesis
        using notAdd True q Cons.IH by (cases err) auto
    next
      case False
      with notAdd show ?thesis using Cons.IH by simp
    qed
  qed
qed

lemma queueKargs_single:
  "queueKargs r [v] kargs h = queueTokens r (Operation v) (quoteSpaceSplit (Name v)) kargs h"
  by (simp split: prod.splits sum.splits)

lemma queueKargs_pair:
  "queueKargs r [v, w] kargs h
     = (case queueTokens r (Operation v) (quoteSpaceSplit (Name v)) kargs h of
          (Inl err, h') \<Rightarrow> (Inl err, h')
        | (Inr kargs', h') \<Rightarrow> queueTokens r (Operation w) (quoteSpaceSplit (Name w)) kargs' h')"
  by (simp split: prod.splits sum.splits)

text \<open>
  C4, as amended. For tokens \<open>a\<close> and \<open>b\<close> that the splitter returns whole, where
  the double quotes of \<open>a\<close> are balanced, and for every operation,
  \<^verbatim>\<open>SetKernelArgs\<close> given the one argument "a b" queues the same flags and ends with the
  same result and the same host as given the two arguments \<open>a\<close> and \<open>b\<close> with
  that operation.
\<close>

theorem composite_expansion:
  assumes "quoteSpaceSplit a = [a]" and "quoteSpaceSplit b = [b]"
      and "even (count_list a (CHR 0x22))"
  shows "quoteSpaceSplit (a @ '' '' @ b) = [a, b]
       \<and> queueKargs r [\<lparr>Operation = operation, Name = a @ '' '' @ b\<rparr>] [] h
           = queueKargs r [\<lparr>Operation = operation, Name = a\<rparr>, \<lparr>Operation = operation, Name = b\<rparr>] [] h
       \<and> SetKernelArgs r [\<lparr>Operation = operation, Name = a @ '' '' @ b\<rparr>] h
           = SetKernelArgs r [\<lparr>Operation = operation, Name = a\<rparr>, \<lparr>Operation = operation, Name = b\<rparr>] h"
proof -
  have s: "quoteSpaceSplit (a @ '' '' @ b) = [a] @ [b]"
    using composite_split[OF assms(1,3), of b] assms(2) by simp
  have "queueKargs r [\<lparr>Operation = operation, Name = a @ '' '' @ b\<rparr>] [] h
      = queueTokens r operation ([a] @ [b]) [] h"
    unfolding queueKargs_single KernelArgument.select_convs s ..
  also have "\<dots> = (case queueTokens r operation [a] [] h of
          (Inl err, h') \<Rightarrow> (Inl err, h')
        | (Inr kargs', h') \<Rightarrow> queueTokens r operation [b] kargs' h')"
    by (rule queueTokens_append)
  also have "\<dots> = queueKargs r [\<lparr>Operation = operation, Name = a\<rparr>, \<lparr>Operation = operation, Name = b\<rparr>] [] h"
    unfolding queueKargs_pair KernelArgument.select_convs assms(1,2) ..
  finally have q: "queueKargs r [\<lparr>Operation = operation, Name = a @ '' '' @ b\<rparr>] [] h
           = queueKargs r [\<lparr>Operation = operation, Name = a\<rparr>, \<lparr>Operation = operation, Name = b\<rparr>] [] h" .
  have t: "quoteSpaceSplit (a @ '' '' @ b) = [a, b]"
    using s by simp
  have k: "SetKernelArgs r [\<lparr>Operation = operation, Name = a @ '' '' @ b\<rparr>] h
           = SetKernelArgs r [\<lparr>Operation = operation, Name = a\<rparr>, \<lparr>Operation = operation, Name = b\<rparr>] h"
    unfolding SetKernelArgs_def q ..
  show ?thesis
    by (rule conjI[OF t conjI[OF q k]])
qed


lemma plain_tokens:
  "quoteSpaceSplit ''a=1'' = [''a=1'']" "quoteSpaceSplit ''b=2'' = [''b=2'']"
  "even (count_list ''a=1'' (CHR 0x22))"
  by (simp_all add: quoteSpaceSplit_def quoteToggle_def)

theorem composite_expansion_witness:
  "quoteSpaceSplit ''a=1 b=2'' = [''a=1'', ''b=2'']
   \<and> SetKernelArgs realClient [\<lparr>Operation = kargAdd, Name = ''a=1 b=2''\<rparr>]
        (demoHost statusAnswers [] None)
     = SetKernelArgs realClient
        [\<lparr>Operation = kargAdd, Name = ''a=1''\<rparr>, \<lparr>Operation = kargAdd, Name = ''b=2''\<rparr>]
        (demoHost statusAnswers [] None)"
  using composite_expansion[OF plain_tokens, of realClient kargAdd "demoHost statusAnswers [] None"]
  by simp


lemma unbalanced_tokens:
  "quoteSpaceSplit unbalanced = [unbalanced]"
  "quoteSpaceSplit ''w'' = [''w'']"
  "quoteSpaceSplit (unbalanced @ '' '' @ ''w'') = [unbalanced @ '' w'']"
  by (simp_all add: quoteSpaceSplit_def quoteToggle_def unbalanced_def)

text \<open>
  C4 as stated fails for a first token with an open double quote: the space that joins
  the two tokens is then quoted, and the composite stays one token.
\<close>

theorem composite_expansion_counterexample:
  "quoteSpaceSplit unbalanced = [unbalanced] \<and> quoteSpaceSplit ''w'' = [''w'']
   \<and> fst (queueKargs realClient [\<lparr>Operation = kargAdd, Name = unbalanced @ '' '' @ ''w''\<rparr>] []
        (demoHost statusAnswers [] None))
       = Inr [''--append='' @ unbalanced @ '' w'']
   \<and> fst (queueKargs realClient
        [\<lparr>Operation = kargAdd, Name = unbalanced\<rparr>, \<lparr>Operation = kargAdd, Name = ''w''\<rparr>] []
        (demoHost statusAnswers [] None))
       = Inr [''--append='' @ unbalanced, ''--append=w'']
   \<and> SetKernelArgs realClient [\<lparr>Operation = kargAdd, Name = unbalanced @ '' '' @ ''w''\<rparr>]
        (demoHost statusAnswers [] None)
     \<noteq> SetKernelArgs realClient
        [\<lparr>Operation = kargAdd, Name = unbalanced\<rparr>, \<lparr>Operation = kargAdd, Name = ''w''\<rparr>]
        (demoHost statusAnswers [] None)"
  using unbalanced_tokens
  by (simp add: SetKernelArgs_def kargAdd_def realClient_def RunRpmOstree_def runRpmOstree_def
      runGetOut_def CombinedOutput_def demoHost_def statusAnswers_def)


subsection \<open>Reconciling kernel arguments\<close>

lemma add_is_not_remove: "kargAdd \<noteq> kargRemove"
  by (simp add: kargAdd_def kargRemove_def)

lemma funpow_keeps:
  assumes "\<forall>h. I h \<longrightarrow> I (q h)" and "I h"
  shows "I ((q ^^ n) h)"
  using assms by (induction n) auto

lemma isKernelArgInUse_query:
  assumes "runRpmOstreeFunc r ''kargs'' [] h = ((out, None), h')"
  shows "isKernelArgInUse r sv h
     = ((list_ex (\<lambda>v. HasPrefix v sv) (quoteSpaceSplit out), None), h')"
  using assms
  by (simp add: isKernelArgInUse_def GetKernelArgs_def RunRpmOstree_def)

lemma queueTokens_queries:
  assumes q: "\<forall>h. I h \<longrightarrow> I (q h) \<and> runRpmOstreeFunc r ''kargs'' [] h = ((out, None), q h)"
  shows "I h \<Longrightarrow> queueTokens r operation svs kargs h
     = (Inr (kargs @ concat (map (tokenFlags (quoteSpaceSplit out) operation) svs)),
        (q ^^ (if operation = kargRemove then length svs else 0)) h)"
proof (induction svs arbitrary: kargs h)
  case Nil
  then show ?case by simp
next
  case (Cons sv svs)
  show ?case
  proof (cases "operation = kargAdd")
    case True
    then show ?thesis
      using Cons.IH[OF Cons.prems] add_is_not_remove by (simp add: tokenFlags_def)
  next
    case notAdd: False
    show ?thesis
    proof (cases "operation = kargRemove")
      case True
      from q Cons.prems have step: "I (q h)" "runRpmOstreeFunc r ''kargs'' [] h = ((out, None), q h)"
        by auto
      show ?thesis
        using notAdd True Cons.IH[OF step(1)] isKernelArgInUse_query[OF step(2)]
        by (simp add: tokenFlags_def funpow_swap1)
    next
      case False
      with notAdd show ?thesis
        using Cons.IH[OF Cons.prems] by (simp add: tokenFlags_def)
    qed
  qed
qed

lemma queueKargs_queries:
  assumes q: "\<forall>h. I h \<longrightarrow> I (q h) \<and> runRpmOstreeFunc r ''kargs'' [] h = ((out, None), q h)"
  shows "I h \<Longrightarrow> queueKargs r args kargs h
     = (Inr (kargs @ flagsFor (quoteSpaceSplit out) args), (q ^^ removals args) h)"
proof (induction args arbitrary: kargs h)
  case Nil
  then show ?case by (simp add: flagsFor_def removals_def)
next
  case (Cons v vs)
  let ?n = "if Operation v = kargRemove then length (quoteSpaceSplit (Name v)) else 0"
  have keep: "\<forall>h. I h \<longrightarrow> I (q h)" using q by blast
  have t: "queueTokens r (Operation v) (quoteSpaceSplit (Name v)) kargs h
     = (Inr (kargs @ concat (map (tokenFlags (quoteSpaceSplit out) (Operation v)) (quoteSpaceSplit (Name v)))),
        (q ^^ ?n) h)"
    by (rule queueTokens_queries[where I=I and q=q and out=out, OF q Cons.prems])
  have i: "I ((q ^^ ?n) h)"
    by (rule funpow_keeps[where I=I, OF keep Cons.prems])
  have "(q ^^ removals vs) ((q ^^ ?n) h) = (q ^^ (removals vs + ?n)) h"
    by (simp only: funpow_add o_apply)
  also have "removals vs + ?n = removals (v # vs)"
    by (simp add: removals_def)
  finally have c: "(q ^^ removals vs) ((q ^^ ?n) h) = (q ^^ removals (v # vs)) h" .
  show ?case
    using t Cons.IH[OF i] c by (simp add: flagsFor_def)
qed

lemma absent_no_flags:
  assumes "\<forall>v \<in> set args. \<forall>sv \<in> set (quoteSpaceSplit (Name v)).
             Operation v \<noteq> kargAdd \<and> \<not> list_ex (\<lambda>c. HasPrefix c sv) current"
  shows "flagsFor current args = []"
  using assms by (auto simp: flagsFor_def tokenFlags_def)

text \<open>
  C3, as amended. Take any client whose kernel argument query answers \<open>out\<close> and
  moves the host by \<open>q\<close> (on the real client \<open>q\<close> adds the query to the commands run;
  \<open>I\<close> is what the host must keep for that). \<^verbatim>\<open>SetKernelArgs\<close> makes one query per
  Remove token and then, when at least one flag is queued, exactly one more call of the
  commander, with the noun kargs and all the queued flags in request order, whose
  result it returns; when no flag is queued it makes no further call and returns the
  empty output and no error. No flag is queued when no token is an Add token and no
  token is a prefix of a current argument.
\<close>

theorem SetKernelArgs_reconciles:
  assumes "I h"
      and "\<forall>h. I h \<longrightarrow> I (q h) \<and> runRpmOstreeFunc r ''kargs'' [] h = ((out, None), q h)"
  shows "SetKernelArgs r args h
           = (let flags = flagsFor (quoteSpaceSplit out) args;
                  h' = (q ^^ removals args) h
              in if flags = [] then (([], None), h')
                 else runRpmOstreeFunc r ''kargs'' flags h')
       \<and> ((\<forall>v \<in> set args. \<forall>sv \<in> set (quoteSpaceSplit (Name v)).
              Operation v \<noteq> kargAdd \<and> \<not> list_ex (\<lambda>c. HasPrefix c sv) (quoteSpaceSplit out))
            \<longrightarrow> flagsFor (quoteSpaceSplit out) args = []
              \<and> SetKernelArgs r args h = (([], None), (q ^^ removals args) h))"
proof -
  have k: "queueKargs r args [] h
     = (Inr ([] @ flagsFor (quoteSpaceSplit out) args), (q ^^ removals args) h)"
    by (rule queueKargs_queries[where I=I and q=q and out=out, OF assms(2,1)])
  have main: "SetKernelArgs r args h
           = (let flags = flagsFor (quoteSpaceSplit out) args;
                  h' = (q ^^ removals args) h
              in if flags = [] then (([], None), h')
                 else runRpmOstreeFunc r ''kargs'' flags h')"
    using k by (simp add: SetKernelArgs_def Let_def RunRpmOstree_def)
  show ?thesis
  proof (intro conjI impI)
    show "SetKernelArgs r args h
           = (let flags = flagsFor (quoteSpaceSplit out) args;
                  h' = (q ^^ removals args) h
              in if flags = [] then (([], None), h')
                 else runRpmOstreeFunc r ''kargs'' flags h')"
      by (rule main)
  next
    assume a: "\<forall>v \<in> set args. \<forall>sv \<in> set (quoteSpaceSplit (Name v)).
              Operation v \<noteq> kargAdd \<and> \<not> list_ex (\<lambda>c. HasPrefix c sv) (quoteSpaceSplit out)"
    show f: "flagsFor (quoteSpaceSplit out) args = []"
      by (rule absent_no_flags[OF a])
    show "SetKernelArgs r args h = (([], None), (q ^^ removals args) h)"
      using main f by (simp add: Let_def)
  qed
qed

lemma demo_splits:
  "quoteSpaceSplit ''ro quiet'' = [''ro'', ''quiet'']"
  "quoteSpaceSplit ''nosmt'' = [''nosmt'']"
  "quoteSpaceSplit ''mitigations=off audit=0'' = [''mitigations=off'', ''audit=0'']"
  "quoteSpaceSplit ''a=1 b=2'' = [''a=1'', ''b=2'']"
  "quoteSpaceSplit ''quiet'' = [''quiet'']"
  by (simp_all add: quoteSpaceSplit_def quoteToggle_def)

lemma recording_query:
  "\<forall>h. True \<longrightarrow> True \<and> runRpmOstreeFunc (recordingClient demoAnswer) ''kargs'' [] h
     = ((''ro quiet'', None), h\<lparr>executed := executed h @ [(''kargs'', [])]\<rparr>)"
  by (simp add: recordingClient_def recordingCommander_def demoAnswer_def)

lemma real_query:
  "\<forall>h. execResult h = (\<lambda>history. kargsAnswers ''ro quiet'') \<longrightarrow>
     execResult (h\<lparr>executed := executed h @ [(realRpmOstreeCmd, [])]\<rparr>)
       = (\<lambda>history. kargsAnswers ''ro quiet'')
     \<and> runRpmOstreeFunc realClient ''kargs'' [] h
       = ((''ro quiet'', None), h\<lparr>executed := executed h @ [(realRpmOstreeCmd, [])]\<rparr>)"
  by (simp add: realClient_def runRpmOstree_def runGetOut_def CombinedOutput_def kargsAnswers_def)

theorem SetKernelArgs_reconciles_witness:
  "SetKernelArgs (recordingClient demoAnswer)
      [\<lparr>Operation = kargRemove, Name = ''nosmt''\<rparr>,
       \<lparr>Operation = kargRemove, Name = ''mitigations=off audit=0''\<rparr>]
      (demoHost statusAnswers [] None)
     = (([], None),
        (demoHost statusAnswers [] None)
          \<lparr>executed := [(''kargs'', []), (''kargs'', []), (''kargs'', [])]\<rparr>)
   \<and> SetKernelArgs (recordingClient demoAnswer)
      [\<lparr>Operation = kargAdd, Name = ''a=1 b=2''\<rparr>, \<lparr>Operation = kargRemove, Name = ''quiet''\<rparr>]
      (demoHost statusAnswers [] None)
     = ((''staged'', None),
        (demoHost statusAnswers [] None)
          \<lparr>executed := [(''kargs'', []),
                        (''kargs'', [''--append=a=1'', ''--append=b=2'', ''--delete=quiet''])]\<rparr>)
   \<and> SetKernelArgs realClient [\<lparr>Operation = kargRemove, Name = ''nosmt''\<rparr>]
      (demoHost (kargsAnswers ''ro quiet'') [] None)
     = (([], None),
        (demoHost (kargsAnswers ''ro quiet'') [] None)\<lparr>executed := [(realRpmOstreeCmd, [])]\<rparr>)"
proof -
  let ?h = "demoHost statusAnswers [] None"
  let ?g = "demoHost (kargsAnswers ''ro quiet'') [] None"
  let ?absent = "[\<lparr>Operation = kargRemove, Name = ''nosmt''\<rparr>,
       \<lparr>Operation = kargRemove, Name = ''mitigations=off audit=0''\<rparr>]"
  let ?mixed = "[\<lparr>Operation = kargAdd, Name = ''a=1 b=2''\<rparr>, \<lparr>Operation = kargRemove, Name = ''quiet''\<rparr>]"
  let ?q = "\<lambda>h. h\<lparr>executed := executed h @ [(''kargs'', [])]\<rparr>"
  let ?p = "\<lambda>h. h\<lparr>executed := executed h @ [(realRpmOstreeCmd, [])]\<rparr>"
  have ex: "executed ?h = []" "executed ?g = []"
    by (simp_all add: demoHost_def)
  have A: "SetKernelArgs (recordingClient demoAnswer) ?absent ?h
     = (([], None), ?h\<lparr>executed := [(''kargs'', []), (''kargs'', []), (''kargs'', [])]\<rparr>)"
    using SetKernelArgs_reconciles[where I="\<lambda>h. True" and q="?q" and r="recordingClient demoAnswer"
        and out="''ro quiet''" and args="?absent" and h="?h", OF TrueI recording_query] ex
    by (simp add: demo_splits removals_def kargAdd_def kargRemove_def numeral_3_eq_3)
  have fl: "flagsFor [''ro'', ''quiet''] ?mixed = [''--append=a=1'', ''--append=b=2'', ''--delete=quiet'']"
    by (simp add: flagsFor_def tokenFlags_def demo_splits kargAdd_def kargRemove_def)
  have B: "SetKernelArgs (recordingClient demoAnswer) ?mixed ?h
     = ((''staged'', None),
        ?h\<lparr>executed := [(''kargs'', []),
                        (''kargs'', [''--append=a=1'', ''--append=b=2'', ''--delete=quiet''])]\<rparr>)"
    using SetKernelArgs_reconciles[where I="\<lambda>h. True" and q="?q" and r="recordingClient demoAnswer"
        and out="''ro quiet''" and args="?mixed" and h="?h", OF TrueI recording_query] ex fl
    by (simp add: demo_splits removals_def kargAdd_def kargRemove_def demoAnswer_def Let_def
        recordingClient_def recordingCommander_def)
  have i: "execResult ?g = (\<lambda>history. kargsAnswers ''ro quiet'')"
    by (simp add: demoHost_def)
  have C: "SetKernelArgs realClient [\<lparr>Operation = kargRemove, Name = ''nosmt''\<rparr>] ?g
     = (([], None), ?g\<lparr>executed := [(realRpmOstreeCmd, [])]\<rparr>)"
    using SetKernelArgs_reconciles[where I="\<lambda>h. execResult h = (\<lambda>history. kargsAnswers ''ro quiet'')"
        and q="?p" and r=realClient
        and out="''ro quiet''" and args="[\<lparr>Operation = kargRemove, Name = ''nosmt''\<rparr>]" and h="?g",
        OF i real_query] ex
    by (simp add: demo_splits removals_def kargAdd_def kargRemove_def)
  from A B C show ?thesis by simp
qed

text \<open>
  C3 as stated says that no host command is issued when every removal is of an absent
  argument. On the real client the query of the current arguments is itself a host
  command, run once for each Remove token.
\<close>

theorem SetKernelArgs_reconciles_counterexample:
  "fst (SetKernelArgs realClient [\<lparr>Operation = kargRemove, Name = ''nosmt''\<rparr>]
      (demoHost (kargsAnswers ''ro quiet'') [] None)) = ([], None)
   \<and> executed (demoHost (kargsAnswers ''ro quiet'') [] None) = []
   \<and> executed (snd (SetKernelArgs realClient [\<lparr>Operation = kargRemove, Name = ''nosmt''\<rparr>]
      (demoHost (kargsAnswers ''ro quiet'') [] None))) = [(realRpmOstreeCmd, [])]"
  by (simp add: SetKernelArgs_def demo_splits kargAdd_def kargRemove_def isKernelArgInUse_def
      GetKernelArgs_def realClient_def RunRpmOstree_def runRpmOstree_def
      runGetOut_def CombinedOutput_def demoHost_def kargsAnswers_def)


subsection \<open>The command wrapper\<close>

lemma runRpmOstree_malformed:
  "length args > 2 \<Longrightarrow> runRpmOstree noun args h = (([], Some malformed), h)"
  by (simp add: runRpmOstree_def)

lemma rebase_step_malformed:
  "runRpmOstree (hd (rebaseArgs repo csum imgURL)) (tl (rebaseArgs repo csum imgURL)) h
     = (([], Some malformed), h)"
  by (rule runRpmOstree_malformed) (simp add: rebaseArgs_def)

text \<open>
  C9, as amended. \<^verbatim>\<open>runRpmOstree\<close> returns the error "rpm-ostree command is malformed,
  not enough arguments" and runs nothing whenever it is given more than two arguments
  after the noun. The rebase of \<^verbatim>\<open>Rebase\<close> passes six arguments after the noun and so
  always gets this error; and on the real client every combined kernel argument call
  with three or more queued flags gets it too, the host being left as the queries left
  it.
\<close>

theorem runRpmOstree_rejects_long_commands:
  "(length args > 2 \<longrightarrow> runRpmOstree noun args h = (([], Some malformed), h))
   \<and> Error malformed = ''rpm-ostree command is malformed, not enough arguments''
   \<and> length (tl (rebaseArgs repo csum imgURL)) = 6
   \<and> runRpmOstree (hd (rebaseArgs repo csum imgURL)) (tl (rebaseArgs repo csum imgURL)) h
       = (([], Some malformed), h)
   \<and> (\<forall>kargs h'. queueKargs realClient reqs [] h = (Inr kargs, h') \<and> length kargs \<ge> 3 \<longrightarrow>
         SetKernelArgs realClient reqs h = (([], Some malformed), h'))"
proof (intro conjI impI allI)
  assume "length args > 2"
  then show "runRpmOstree noun args h = (([], Some malformed), h)"
    by (rule runRpmOstree_malformed)
next
  show "Error malformed = ''rpm-ostree command is malformed, not enough arguments''"
    by (simp add: malformed_def)
next
  show "length (tl (rebaseArgs repo csum imgURL)) = 6"
    by (simp add: rebaseArgs_def)
next
  show "runRpmOstree (hd (rebaseArgs repo csum imgURL)) (tl (rebaseArgs repo csum imgURL)) h
       = (([], Some malformed), h)"
    by (rule rebase_step_malformed)
next
  fix kargs h'
  assume a: "queueKargs realClient reqs [] h = (Inr kargs, h') \<and> length kargs \<ge> 3"
  then have "length kargs > 2" by simp
  from runRpmOstree_malformed[OF this] a
  show "SetKernelArgs realClient reqs h = (([], Some malformed), h')"
    by (auto simp: SetKernelArgs_def RunRpmOstree_def realClient_def)
qed

lemma three_tokens: "quoteSpaceSplit ''a=1 b=2 c=3'' = [''a=1'', ''b=2'', ''c=3'']"
  by (simp add: quoteSpaceSplit_def quoteToggle_def)

lemma three_flags:
  "queueKargs realClient [\<lparr>Operation = kargAdd, Name = ''a=1 b=2 c=3''\<rparr>] [] h
     = (Inr [''--append=a=1'', ''--append=b=2'', ''--append=c=3''], h)"
  by (simp add: three_tokens)

theorem runRpmOstree_rejects_long_commands_witness:
  "runRpmOstree ''kargs'' [''--append=a=1'', ''--append=b=2'', ''--append=c=3'']
      (demoHost statusAnswers [] None)
     = (([], Some malformed), demoHost statusAnswers [] None)
   \<and> SetKernelArgs realClient [\<lparr>Operation = kargAdd, Name = ''a=1 b=2 c=3''\<rparr>]
      (demoHost statusAnswers [] None)
     = (([], Some malformed), demoHost statusAnswers [] None)"
  using runRpmOstree_rejects_long_commands[of
      "[''--append=a=1'', ''--append=b=2'', ''--append=c=3'']" "''kargs''"
      "demoHost statusAnswers [] None" "[]" "[]" "[]"
      "[\<lparr>Operation = kargAdd, Name = ''a=1 b=2 c=3''\<rparr>]"]
    three_flags[of "demoHost statusAnswers [] None"]
  by simp

text \<open>
  C9 as stated counts five arguments after the noun of the rebase; there are six.
\<close>

theorem runRpmOstree_rejects_long_commands_counterexample:
  "length (tl (rebaseArgs demoRepo ''c0ffee'' ''quay.io/os'')) \<noteq> 5"
  by (simp add: rebaseArgs_def)


subsection \<open>An empty reference listing\<close>

lemma Split_nonempty: "Split s sep \<noteq> []"
  by (induction s) (auto split: list.splits)

lemma runGetOut_error_wrapped:
  "runGetOut command args h = ((out, Some err), h') \<Longrightarrow> \<exists>cause m. err = ErrorWrap cause m"
  by (auto simp: runGetOut_def CombinedOutput_def split: prod.splits option.splits)

lemma resolveCsum_never_no_refs:
  "fst (resolveCsum repo ostreeCsum h) \<noteq> Inl (ErrorNew ''No refs found in repo'')"
proof (cases "ostreeCsum = []")
  case False
  then show ?thesis by (simp add: resolveCsum_def)
next
  case True
  obtain refText e1 h1 where l: "runGetOut ''ostree'' [''refs'', ''--repo'', repo] h = ((refText, e1), h1)"
    by (metis surj_pair)
  show ?thesis
  proof (cases e1)
    case (Some err)
    with runGetOut_error_wrapped l obtain cause m where "err = ErrorWrap cause m" by blast
    with True l Some show ?thesis by (simp add: resolveCsum_def)
  next
    case None
    let ?refs = "Split (TrimSpace refText) (CHR 0x0A)"
    have ne: "length ?refs = 1 \<or> length ?refs > 1"
      using Split_nonempty[of "TrimSpace refText" "CHR 0x0A"] by (cases ?refs) auto
    obtain b e2 h2 where p: "runGetOut ''ostree'' [''rev-parse'', ''--repo'', repo, ?refs ! 0] h1 = ((b, e2), h2)"
      by (metis surj_pair)
    show ?thesis
    proof (cases e2)
      case (Some err)
      with runGetOut_error_wrapped p obtain cause m where "err = ErrorWrap cause m" by blast
      with True l None p Some ne show ?thesis
        by (auto simp: resolveCsum_def Let_def)
    next
      case n2: None
      with True l None p ne show ?thesis
        by (auto simp: resolveCsum_def Let_def)
    qed
  qed
qed

text \<open>
  C10. When the reference listing succeeds and its output is empty once trimmed,
  splitting it on newlines gives the list of one empty string, so \<^verbatim>\<open>Rebase\<close> takes
  the branch for a single reference and resolves the empty reference name; the result
  of the resolution is never the error "No refs found in repo".
\<close>

theorem empty_listing_is_one_empty_ref:
  assumes "runGetOut ''ostree'' [''refs'', ''--repo'', repo] h = ((refText, None), h1)"
      and "TrimSpace refText = []"
  shows "Split (TrimSpace refText) (CHR 0x0A) = [[]]
       \<and> resolveCsum repo [] h
           = (case runGetOut ''ostree'' [''rev-parse'', ''--repo'', repo, []] h1 of
                ((ostreeCsumBytes, Some err), h2) \<Rightarrow> (Inl err, h2)
              | ((ostreeCsumBytes, None), h2) \<Rightarrow> (Inr (TrimSpace ostreeCsumBytes), h2))
       \<and> fst (resolveCsum repo [] h) \<noteq> Inl (ErrorNew ''No refs found in repo'')"
proof (intro conjI)
  show "Split (TrimSpace refText) (CHR 0x0A) = [[]]"
    using assms(2) by simp
  show "resolveCsum repo [] h
           = (case runGetOut ''ostree'' [''rev-parse'', ''--repo'', repo, []] h1 of
                ((ostreeCsumBytes, Some err), h2) \<Rightarrow> (Inl err, h2)
              | ((ostreeCsumBytes, None), h2) \<Rightarrow> (Inr (TrimSpace ostreeCsumBytes), h2))"
    using assms by (simp add: resolveCsum_def)
  show "fst (resolveCsum repo [] h) \<noteq> Inl (ErrorNew ''No refs found in repo'')"
    by (rule resolveCsum_never_no_refs)
qed

lemma trim_blank: "TrimSpace [CHR 0x20, CHR 0x0A] = []"
  by (simp add: TrimSpace_def spaceWidth_def asciiSpace_def)

lemma trim_deadbeef: "TrimSpace (''deadbeef'' @ [CHR 0x0A]) = ''deadbeef''"
  by (simp add: TrimSpace_def spaceWidth_def spaceWidthRev_def asciiSpace_def wideSpaces_def)

lemma demo_listing:
  "executed h = hist \<Longrightarrow> execResult h = (\<lambda>history. emptyRepoAnswers) \<Longrightarrow>
   runGetOut ''ostree'' [''refs'', ''--repo'', demoRepo] h
     = (([CHR 0x20, CHR 0x0A], None),
        h\<lparr>executed := hist @ [(''ostree'', [''refs'', ''--repo'', demoRepo])]\<rparr>)"
  by (simp add: runGetOut_def CombinedOutput_def emptyRepoAnswers_def)

lemma demo_rev_parse:
  "executed h = hist \<Longrightarrow> execResult h = (\<lambda>history. emptyRepoAnswers) \<Longrightarrow>
   runGetOut ''ostree'' [''rev-parse'', ''--repo'', demoRepo, []] h
     = ((''deadbeef'' @ [CHR 0x0A], None),
        h\<lparr>executed := hist @ [(''ostree'', [''rev-parse'', ''--repo'', demoRepo, []])]\<rparr>)"
  by (simp add: runGetOut_def CombinedOutput_def emptyRepoAnswers_def demoRepo_def)

theorem empty_listing_is_one_empty_ref_witness:
  "resolveCsum demoRepo [] (demoHost emptyRepoAnswers [] None)
     = (Inr ''deadbeef'',
        (demoHost emptyRepoAnswers [] None)
          \<lparr>executed := [(''ostree'', [''refs'', ''--repo'', demoRepo]),
                        (''ostree'', [''rev-parse'', ''--repo'', demoRepo, []])]\<rparr>)"
proof -
  let ?h = "demoHost emptyRepoAnswers [] None"
  have e: "executed ?h = []" "execResult ?h = (\<lambda>history. emptyRepoAnswers)"
    by (simp_all add: demoHost_def)
  let ?h1 = "?h\<lparr>executed := [] @ [(''ostree'', [''refs'', ''--repo'', demoRepo])]\<rparr>"
  have e1: "executed ?h1 = [(''ostree'', [''refs'', ''--repo'', demoRepo])]"
     "execResult ?h1 = (\<lambda>history. emptyRepoAnswers)"
    by (simp_all add: demoHost_def)
  show ?thesis
    using empty_listing_is_one_empty_ref[OF demo_listing[OF e] trim_blank]
      demo_rev_parse[OF e1] trim_deadbeef
    by simp
qed


lemma TrimLeft_blank: "list_all asciiSpace s \<Longrightarrow> length s \<le> n \<Longrightarrow> TrimLeft n s = []"
proof (induction n arbitrary: s)
  case 0
  then show ?case by simp
next
  case (Suc n)
  show ?case
  proof (cases s)
    case Nil
    then show ?thesis by (simp add: spaceWidth_def)
  next
    case (Cons c cs)
    with Suc.prems have "spaceWidth s = 1" "list_all asciiSpace cs" "length cs \<le> n"
      by (simp_all add: spaceWidth_def)
    with Suc.IH[of cs] Cons show ?thesis by simp
  qed
qed

lemma TrimSpace_blank: "list_all asciiSpace s \<Longrightarrow> TrimSpace s = []"
  using TrimLeft_blank[of s "length s"] by (simp add: TrimSpace_def)


subsection \<open>What Rebase returns\<close>

lemma Rebase_no_deployment:
  "GetBootedDeployment r h = (Inl e, h1) \<Longrightarrow> Rebase r imgURL dir h = ((False, Some e), h1)"
  by (simp add: Rebase_def)

lemma Rebase_no_labels:
  "GetBootedDeployment r h = (Inr d, h1) \<Longrightarrow> inspectLabels imgURL h1 = (Inl e, h2) \<Longrightarrow>
   Rebase r imgURL dir h = ((False, Some e), h2)"
  by (simp add: Rebase_def)

lemma Rebase_unresolved:
  "GetBootedDeployment r h = (Inr d, h1) \<Longrightarrow> inspectLabels imgURL h1 = (Inr (c, v), h2) \<Longrightarrow>
   resolveCsum (dir @ ''/srv/repo'') c h2 = (Inl e, h3) \<Longrightarrow>
   Rebase r imgURL dir h = ((False, Some e), snd (Run ''podman'' [''rmi'', imgURL] h3))"
  by (simp add: Rebase_def)

lemma Rebase_resolved:
  "GetBootedDeployment r h = (Inr d, h1) \<Longrightarrow> inspectLabels imgURL h1 = (Inr (c, v), h2) \<Longrightarrow>
   resolveCsum (dir @ ''/srv/repo'') c h2 = (Inr csum, h3) \<Longrightarrow>
   Rebase r imgURL dir h = ((True, Some malformed), snd (Run ''podman'' [''rmi'', imgURL] h3))"
  using rebase_step_malformed[of "dir @ ''/srv/repo''" csum imgURL h3]
  by (simp add: Rebase_def Let_def)

lemma Rebase_success_changed:
  "snd (fst (Rebase r imgURL dir h)) = None \<Longrightarrow> fst (fst (Rebase r imgURL dir h))"
proof -
  assume ok: "snd (fst (Rebase r imgURL dir h)) = None"
  obtain b h1 where g: "GetBootedDeployment r h = (b, h1)" by (metis surj_pair)
  show ?thesis
  proof (cases b)
    case (Inl e)
    with g ok Rebase_no_deployment show ?thesis by simp
  next
    case (Inr d)
    obtain l h2 where i: "inspectLabels imgURL h1 = (l, h2)" by (metis surj_pair)
    show ?thesis
    proof (cases l)
      case (Inl e)
      with g Inr i ok Rebase_no_labels[of r h d h1 imgURL e h2 dir] show ?thesis by simp
    next
      case lab: (Inr cv)
      obtain c v where cv: "cv = (c, v)" by (metis surj_pair)
      obtain res h3 where rs: "resolveCsum (dir @ ''/srv/repo'') c h2 = (res, h3)" by (metis surj_pair)
      show ?thesis
      proof (cases res)
        case (Inl e)
        with g Inr i lab cv rs ok Rebase_unresolved[of r h d h1 imgURL c v h2 dir e h3]
        show ?thesis by simp
      next
        case res: (Inr csum)
        with g Inr i lab cv rs Rebase_resolved[of r h d h1 imgURL c v h2 dir csum h3]
        show ?thesis by simp
      qed
    qed
  qed
qed

text \<open>
  C1, as amended. \<^verbatim>\<open>Rebase\<close> reports true whenever it returns no error, and exactly when
  it reaches the rebase command, whatever that command returns; it reports false when
  reading the booted deployment, inspecting the image or resolving the checksum fails.
  In each case the error it returns is the one from that step, unchanged.
\<close>

theorem Rebase_changed_and_errors:
  "(snd (fst (Rebase r imgURL dir h)) = None \<longrightarrow> fst (fst (Rebase r imgURL dir h)))
   \<and> (\<forall>e h1. GetBootedDeployment r h = (Inl e, h1) \<longrightarrow>
         fst (Rebase r imgURL dir h) = (False, Some e))
   \<and> (\<forall>d h1 e h2. GetBootedDeployment r h = (Inr d, h1) \<and> inspectLabels imgURL h1 = (Inl e, h2) \<longrightarrow>
         fst (Rebase r imgURL dir h) = (False, Some e))
   \<and> (\<forall>d h1 c v h2 e h3. GetBootedDeployment r h = (Inr d, h1)
         \<and> inspectLabels imgURL h1 = (Inr (c, v), h2)
         \<and> resolveCsum (dir @ ''/srv/repo'') c h2 = (Inl e, h3) \<longrightarrow>
         fst (Rebase r imgURL dir h) = (False, Some e))
   \<and> (\<forall>d h1 c v h2 csum h3. GetBootedDeployment r h = (Inr d, h1)
         \<and> inspectLabels imgURL h1 = (Inr (c, v), h2)
         \<and> resolveCsum (dir @ ''/srv/repo'') c h2 = (Inr csum, h3) \<longrightarrow>
         fst (Rebase r imgURL dir h)
           = (True, snd (fst (runRpmOstree ''rebase''
                 (tl (rebaseArgs (dir @ ''/srv/repo'') csum imgURL)) h3))))"
proof (intro conjI allI impI)
  assume "snd (fst (Rebase r imgURL dir h)) = None"
  then show "fst (fst (Rebase r imgURL dir h))" by (rule Rebase_success_changed)
next
  fix e h1
  assume "GetBootedDeployment r h = (Inl e, h1)"
  then show "fst (Rebase r imgURL dir h) = (False, Some e)"
    by (simp add: Rebase_no_deployment)
next
  fix d h1 e h2
  assume "GetBootedDeployment r h = (Inr d, h1) \<and> inspectLabels imgURL h1 = (Inl e, h2)"
  then show "fst (Rebase r imgURL dir h) = (False, Some e)"
    using Rebase_no_labels[of r h d h1 imgURL e h2 dir] by simp
next
  fix d h1 c v h2 e h3
  assume "GetBootedDeployment r h = (Inr d, h1)
         \<and> inspectLabels imgURL h1 = (Inr (c, v), h2)
         \<and> resolveCsum (dir @ ''/srv/repo'') c h2 = (Inl e, h3)"
  then show "fst (Rebase r imgURL dir h) = (False, Some e)"
    using Rebase_unresolved[of r h d h1 imgURL c v h2 dir e h3] by simp
next
  fix d h1 c v h2 csum h3
  assume a: "GetBootedDeployment r h = (Inr d, h1)
         \<and> inspectLabels imgURL h1 = (Inr (c, v), h2)
         \<and> resolveCsum (dir @ ''/srv/repo'') c h2 = (Inr csum, h3)"
  have "runRpmOstree ''rebase'' (tl (rebaseArgs (dir @ ''/srv/repo'') csum imgURL)) h3
      = (([], Some malformed), h3)"
    using rebase_step_malformed[of "dir @ ''/srv/repo''" csum imgURL h3]
    by (simp add: rebaseArgs_def)
  with a show "fst (Rebase r imgURL dir h)
           = (True, snd (fst (runRpmOstree ''rebase''
                 (tl (rebaseArgs (dir @ ''/srv/repo'') csum imgURL)) h3)))"
    using Rebase_resolved[of r h d h1 imgURL c v h2 dir csum h3] by simp
qed

lemma demo_booted_any:
  "GetBootedDeployment realClient (demoHost answers [demoDeployment ''a'' True origin] l)
     = (Inr (demoDeployment ''a'' True origin),
        (demoHost answers [demoDeployment ''a'' True origin] l)
           \<lparr>executed := [(realRpmOstreeCmd, [''--json''])]\<rparr>)"
  if "answers (realRpmOstreeCmd, [''--json'']) = (''{}'', None)"
  using that
  by (simp add: GetBootedDeployment_def RunRpmOstree_def realClient_def runRpmOstree_def
      runGetOut_def CombinedOutput_def demoHost_def demoDeployment_def)

lemma demo_not_booted:
  "GetBootedDeployment realClient (demoHost statusAnswers [] l)
     = (Inl notBooted, (demoHost statusAnswers [] l)\<lparr>executed := [(realRpmOstreeCmd, [''--json''])]\<rparr>)"
  by (simp add: GetBootedDeployment_def RunRpmOstree_def realClient_def runRpmOstree_def
      runGetOut_def CombinedOutput_def demoHost_def statusAnswers_def)

lemma demo_labels:
  "imageInspect h = imageInspect (demoHost answers ds (Some m)) \<Longrightarrow>
   inspectLabels imgURL h = (Inr (label m ''com.coreos.ostree-commit'', label m ''version''), h)"
  by (simp add: inspectLabels_def demoHost_def)

theorem Rebase_changed_and_errors_witness:
  "fst (Rebase realClient ''quay.io/os'' ''/run/mco'' (demoHost statusAnswers [] None))
     = (False, Some notBooted)
   \<and> fst (Rebase realClient ''quay.io/os'' ''/run/mco''
        (demoHost statusAnswers [demoDeployment ''a'' True []] (Some commitLabel)))
     = (True, Some malformed)"
proof -
  let ?h = "demoHost statusAnswers [demoDeployment ''a'' True []] (Some commitLabel)"
  let ?h1 = "?h\<lparr>executed := [(realRpmOstreeCmd, [''--json''])]\<rparr>"
  have g: "GetBootedDeployment realClient ?h = (Inr (demoDeployment ''a'' True []), ?h1)"
    by (rule demo_booted_any) (simp add: statusAnswers_def)
  have i: "inspectLabels ''quay.io/os'' ?h1 = (Inr (''c0ffee'', []), ?h1)"
    using demo_labels[of ?h1 statusAnswers "[demoDeployment ''a'' True []]" commitLabel "''quay.io/os''"]
    by (simp add: demoHost_def label_def commitLabel_def)
  have rs: "resolveCsum (''/run/mco'' @ ''/srv/repo'') ''c0ffee'' ?h1 = (Inr ''c0ffee'', ?h1)"
    by (simp add: resolveCsum_def)
  have m: "runRpmOstree ''rebase'' (tl (rebaseArgs (''/run/mco'' @ ''/srv/repo'') ''c0ffee'' ''quay.io/os'')) ?h1
      = (([], Some malformed), ?h1)"
    by (simp add: runRpmOstree_def rebaseArgs_def)
  have A: "fst (Rebase realClient ''quay.io/os'' ''/run/mco'' (demoHost statusAnswers [] None))
     = (False, Some notBooted)"
    using Rebase_changed_and_errors[of realClient "''quay.io/os''" "''/run/mco''"
        "demoHost statusAnswers [] None"] demo_not_booted[of None]
    by blast
  have B: "fst (Rebase realClient ''quay.io/os'' ''/run/mco'' ?h) = (True, Some malformed)"
    using Rebase_changed_and_errors[of realClient "''quay.io/os''" "''/run/mco''" ?h] g i rs m
    by (metis fst_conv snd_conv)
  from A B show ?thesis by (rule conjI)
qed

text \<open>
  C1 as stated has \<^verbatim>\<open>Rebase\<close> report true only when it completes successfully. On a
  host with a booted deployment and an image that carries the commit label it reports
  true together with the error of the rebase command.
\<close>

theorem Rebase_changed_and_errors_counterexample:
  "fst (fst (Rebase realClient ''quay.io/os'' ''/run/mco''
        (demoHost statusAnswers [demoDeployment ''a'' True []] (Some commitLabel))))
   \<and> snd (fst (Rebase realClient ''quay.io/os'' ''/run/mco''
        (demoHost statusAnswers [demoDeployment ''a'' True []] (Some commitLabel))))
       = Some (ErrorNew ''rpm-ostree command is malformed, not enough arguments'')"
proof -
  let ?h = "demoHost statusAnswers [demoDeployment ''a'' True []] (Some commitLabel)"
  let ?h1 = "?h\<lparr>executed := [(realRpmOstreeCmd, [''--json''])]\<rparr>"
  have g: "GetBootedDeployment realClient ?h = (Inr (demoDeployment ''a'' True []), ?h1)"
    by (rule demo_booted_any) (simp add: statusAnswers_def)
  have i: "inspectLabels ''quay.io/os'' ?h1 = (Inr (''c0ffee'', []), ?h1)"
    using demo_labels[of ?h1 statusAnswers "[demoDeployment ''a'' True []]" commitLabel "''quay.io/os''"]
    by (simp add: demoHost_def label_def commitLabel_def)
  have rs: "resolveCsum (''/run/mco'' @ ''/srv/repo'') ''c0ffee'' ?h1 = (Inr ''c0ffee'', ?h1)"
    by (simp add: resolveCsum_def)
  from Rebase_resolved[OF g i rs] show ?thesis
    by (simp add: malformed_def)
qed


subsection \<open>Resolving the commit from the repository\<close>

lemma resolveCsum_single_ref:
  assumes "runGetOut ''ostree'' [''refs'', ''--repo'', repo] h = ((refText, None), h1)"
      and "Split (TrimSpace refText) (CHR 0x0A) = [ref]"
  shows "resolveCsum repo [] h
           = (case runGetOut ''ostree'' [''rev-parse'', ''--repo'', repo, ref] h1 of
                ((ostreeCsumBytes, Some err), h2) \<Rightarrow> (Inl err, h2)
              | ((ostreeCsumBytes, None), h2) \<Rightarrow> (Inr (TrimSpace ostreeCsumBytes), h2))"
  using assms by (simp add: resolveCsum_def)

lemma resolveCsum_multiple_refs:
  assumes "runGetOut ''ostree'' [''refs'', ''--repo'', repo] h = ((refText, None), h1)"
      and "length (Split (TrimSpace refText) (CHR 0x0A)) > 1"
  shows "resolveCsum repo [] h = (Inl (ErrorNew ''multiple refs found in repo''), h1)"
  using assms by (simp add: resolveCsum_def Let_def)

lemma Rebase_multiple_refs:
  assumes "GetBootedDeployment r h = (Inr d, h1)"
      and "inspectLabels imgURL h1 = (Inr ([], v), h2)"
      and "runGetOut ''ostree'' [''refs'', ''--repo'', dir @ ''/srv/repo''] h2 = ((refText, None), h3)"
      and "length (Split (TrimSpace refText) (CHR 0x0A)) > 1"
  shows "Rebase r imgURL dir h
     = ((False, Some (ErrorNew ''multiple refs found in repo'')),
        h3\<lparr>executed := executed h3 @ [(''podman'', [''rmi'', imgURL])]\<rparr>)"
  using Rebase_unresolved[OF assms(1,2) resolveCsum_multiple_refs[OF assms(3,4)]]
  by (simp add: Run_def CombinedOutput_def split: prod.splits)

lemma two_refs_split:
  "Split (TrimSpace (''stable'' @ [CHR 0x0A] @ ''testing'' @ [CHR 0x0A])) (CHR 0x0A)
     = [''stable'', ''testing'']"
  by (simp add: TrimSpace_def spaceWidth_def spaceWidthRev_def asciiSpace_def wideSpaces_def)

lemma Rebase_two_refs_demo:
  "Rebase realClient ''quay.io/os'' ''/run/mco''
      (demoHost twoRefsAnswers [demoDeployment ''a'' True []] (Some Map.empty))
     = ((False, Some (ErrorNew ''multiple refs found in repo'')),
        (demoHost twoRefsAnswers [demoDeployment ''a'' True []] (Some Map.empty))
          \<lparr>executed := [(realRpmOstreeCmd, [''--json'']),
                        (''ostree'', [''refs'', ''--repo'', demoRepo]),
                        (''podman'', [''rmi'', ''quay.io/os''])]\<rparr>)"
proof -
  let ?h = "demoHost twoRefsAnswers [demoDeployment ''a'' True []] (Some Map.empty)"
  let ?h1 = "?h\<lparr>executed := [(realRpmOstreeCmd, [''--json''])]\<rparr>"
  let ?h2 = "?h1\<lparr>executed := executed ?h1 @ [(''ostree'', [''refs'', ''--repo'', ''/run/mco'' @ ''/srv/repo''])]\<rparr>"
  have g: "GetBootedDeployment realClient ?h = (Inr (demoDeployment ''a'' True []), ?h1)"
    by (rule demo_booted_any) (simp add: twoRefsAnswers_def realRpmOstreeCmd_def)
  have i: "inspectLabels ''quay.io/os'' ?h1 = (Inr ([], []), ?h1)"
    using demo_labels[of ?h1 twoRefsAnswers "[demoDeployment ''a'' True []]" Map.empty "''quay.io/os''"]
    by (simp add: demoHost_def label_def)
  have l: "runGetOut ''ostree'' [''refs'', ''--repo'', ''/run/mco'' @ ''/srv/repo''] ?h1
      = ((''stable'' @ [CHR 0x0A] @ ''testing'' @ [CHR 0x0A], None), ?h2)"
    by (simp add: runGetOut_def CombinedOutput_def demoHost_def twoRefsAnswers_def demoRepo_def)
  have n: "length (Split (TrimSpace (''stable'' @ [CHR 0x0A] @ ''testing'' @ [CHR 0x0A])) (CHR 0x0A)) > 1"
    unfolding two_refs_split by simp
  from Rebase_multiple_refs[OF g i l n] show ?thesis
    by (simp add: demoRepo_def demoHost_def)
qed

text \<open>
  C5 at a repository with no reference. The image has no commit label and the listing
  prints only white space. \<^verbatim>\<open>Rebase\<close> does not fail the resolution: it asks the host to
  resolve the empty reference name, takes the answer as the checksum and goes on to the
  rebase command (it reports true, and the error is the one of that command).
\<close>

theorem Rebase_empty_repo_reaches_rebase:
  "Rebase realClient ''quay.io/os'' ''/run/mco''
      (demoHost emptyRepoAnswers [demoDeployment ''a'' True []] (Some Map.empty))
     = ((True, Some malformed),
        (demoHost emptyRepoAnswers [demoDeployment ''a'' True []] (Some Map.empty))
          \<lparr>executed := [(realRpmOstreeCmd, [''--json'']),
                        (''ostree'', [''refs'', ''--repo'', demoRepo]),
                        (''ostree'', [''rev-parse'', ''--repo'', demoRepo, []]),
                        (''podman'', [''rmi'', ''quay.io/os''])]\<rparr>)"
proof -
  let ?h = "demoHost emptyRepoAnswers [demoDeployment ''a'' True []] (Some Map.empty)"
  let ?h1 = "?h\<lparr>executed := [(realRpmOstreeCmd, [''--json''])]\<rparr>"
  let ?h2 = "?h1\<lparr>executed := [(realRpmOstreeCmd, [''--json''])] @ [(''ostree'', [''refs'', ''--repo'', demoRepo])]\<rparr>"
  let ?h3 = "?h2\<lparr>executed := [(realRpmOstreeCmd, [''--json'']), (''ostree'', [''refs'', ''--repo'', demoRepo])]
                 @ [(''ostree'', [''rev-parse'', ''--repo'', demoRepo, []])]\<rparr>"
  have g: "GetBootedDeployment realClient ?h = (Inr (demoDeployment ''a'' True []), ?h1)"
    by (rule demo_booted_any) (simp add: emptyRepoAnswers_def realRpmOstreeCmd_def)
  have i: "inspectLabels ''quay.io/os'' ?h1 = (Inr ([], []), ?h1)"
    using demo_labels[of ?h1 emptyRepoAnswers "[demoDeployment ''a'' True []]" Map.empty "''quay.io/os''"]
    by (simp add: demoHost_def label_def)
  have e1: "executed ?h1 = [(realRpmOstreeCmd, [''--json''])]"
    "execResult ?h1 = (\<lambda>history. emptyRepoAnswers)"
    by (simp_all add: demoHost_def)
  have e2: "executed ?h2 = [(realRpmOstreeCmd, [''--json'']), (''ostree'', [''refs'', ''--repo'', demoRepo])]"
    "execResult ?h2 = (\<lambda>history. emptyRepoAnswers)"
    by (simp_all add: demoHost_def)
  have l: "runGetOut ''ostree'' [''refs'', ''--repo'', demoRepo] ?h1 = (([CHR 0x20, CHR 0x0A], None), ?h2)"
    by (rule demo_listing[OF e1])
  have p: "runGetOut ''ostree'' [''rev-parse'', ''--repo'', demoRepo, []] ?h2
      = ((''deadbeef'' @ [CHR 0x0A], None), ?h3)"
    by (rule demo_rev_parse[OF e2])
  have s: "Split (TrimSpace [CHR 0x20, CHR 0x0A]) (CHR 0x0A) = [[]]"
    by (simp add: trim_blank)
  have rs: "resolveCsum (''/run/mco'' @ ''/srv/repo'') [] ?h1 = (Inr ''deadbeef'', ?h3)"
    using resolveCsum_single_ref[OF l s] p trim_deadbeef
    by (simp add: demoRepo_def)
  from Rebase_resolved[OF g i rs] show ?thesis
    by (simp add: Run_def CombinedOutput_def demoHost_def case_prod_beta)
qed


end
